theory Spec2Isabelle
  imports Complex_Main
begin

section \<open>Involute gear geometry and gear-train kinematics of \<^verbatim>\<open>src/gear.js\<close>\<close>

text \<open>
  JavaScript numbers are modelled as the real numbers: a statement below is a statement of
  real arithmetic about the formulas of the source, and says nothing about rounding,
  \<^verbatim>\<open>NaN\<close> or \<^verbatim>\<open>Infinity\<close>, unless it is about \<open>generateGearParams_double\<close>, the one function
  that is also modelled with the rounding of doubles. Where the source divides by zero or
  takes the root of a negative number, HOL's total \<open>/\<close> and \<open>sqrt\<close> return a real; no theorem
  below is stated on such an input.
\<close>

subsection \<open>Vectors and conversion utilities\<close>

text \<open>A \<^verbatim>\<open>THREE.Vector2\<close> is the pair of its \<^verbatim>\<open>x\<close> and \<^verbatim>\<open>y\<close>.\<close>

type_synonym vec2 = "real \<times> real"

definition INVOLUTE_STEP :: real where
  "INVOLUTE_STEP = 0.05"

definition ORIGIN_VEC2 :: vec2 where
  "ORIGIN_VEC2 = (0, 0)"

text \<open>\<^verbatim>\<open>Vector2.length()\<close> is \<^verbatim>\<open>Math.sqrt(x*x + y*y)\<close>.\<close>

definition vec2_length :: "vec2 \<Rightarrow> real" where
  "vec2_length v = sqrt (fst v * fst v + snd v * snd v)"

definition polToCar :: "real \<Rightarrow> real \<Rightarrow> vec2" where
  "polToCar r w = (r * cos w, r * sin w)"

definition degToRad :: "real \<Rightarrow> real" where
  "degToRad a = a * pi / 180"

definition radToDeg :: "real \<Rightarrow> real" where
  "radToDeg a = 180 * a / pi"

subsection \<open>The involute sampler\<close>

definition involutePoint :: "real \<Rightarrow> real \<Rightarrow> vec2" where
  "involutePoint t baseRadius =
     (baseRadius * (cos t + t * sin t), baseRadius * (sin t - t * cos t))"

text \<open>
  The \<^verbatim>\<open>while\<close> loop of \<^verbatim>\<open>generateInvoluteCurve\<close>: the test reads the point computed last
  (before the first round, the point at \<open>t = 0\<close>), the body computes the point at the
  current \<open>t\<close>, appends it and advances \<open>t\<close>. The loop need not end (a base radius of 0 with
  a positive maximal radius never leaves it), so not returning is the value \<open>None\<close>.
\<close>

partial_function (option) involute_while ::
  "real \<Rightarrow> real \<Rightarrow> real \<Rightarrow> real \<Rightarrow> vec2 \<Rightarrow> vec2 list \<Rightarrow> vec2 list option" where
  "involute_while baseRadius maxRadius step t point pointsArray =
     (if vec2_length point < maxRadius
      then involute_while baseRadius maxRadius step (t + step)
             (involutePoint t baseRadius) (pointsArray @ [involutePoint t baseRadius])
      else Some pointsArray)"

text \<open>The optional third argument is the parameter \<^verbatim>\<open>step = INVOLUTE_STEP\<close>.\<close>

definition generateInvoluteCurve :: "real \<Rightarrow> real \<Rightarrow> real option \<Rightarrow> vec2 list option" where
  "generateInvoluteCurve baseRadius maxRadius step_arg =
     (let step = (case step_arg of None \<Rightarrow> INVOLUTE_STEP | Some s \<Rightarrow> s);
          endPointParam = sqrt (maxRadius ^ 2 / baseRadius ^ 2 - 1)
      in case involute_while baseRadius maxRadius step 0 (involutePoint 0 baseRadius) [] of
           None \<Rightarrow> None
         | Some pointsArray \<Rightarrow> Some (pointsArray @ [involutePoint endPointParam baseRadius]))"

subsection \<open>Rotation, reflection and shapes\<close>

text \<open>
  Exceptions are values. The only one the modelled code can raise is the \<^verbatim>\<open>TypeError\<close> of
  \<^verbatim>\<open>points[0].x\<close> on an empty array; the source has no \<^verbatim>\<open>throw\<close> of its own. A computation
  that may also fail to return has a result of type \<open>(error + 'a) option\<close>: \<open>None\<close> is not
  returning, \<open>Some (Inl e)\<close> is the exception \<open>e\<close>, \<open>Some (Inr v)\<close> is the value \<open>v\<close>.
\<close>

datatype error = TypeError

text \<open>
  Modelled from the spec: \<^verbatim>\<open>THREE.Vector2\<close> and \<^verbatim>\<open>THREE.Shape\<close> are classes of the three.js library,
  which is imported by the source and is not part of it. The spec's ToothPolygon is an ordered
  sequence of 2D points joined by straight segments; a shape is modelled as three.js keeps
  such a path: the list of its line segments (\<^verbatim>\<open>curves\<close>, each from the pen's position to the
  target of a \<^verbatim>\<open>lineTo\<close>) and the pen's position (\<^verbatim>\<open>currentPoint\<close>). \<^verbatim>\<open>moveTo\<close> moves the pen,
  \<^verbatim>\<open>lineTo\<close> appends a segment, \<^verbatim>\<open>setFromPoints\<close> moves to the first point and draws to each
  further one (it reads \<^verbatim>\<open>points[0].x\<close>, so an empty array raises), and \<^verbatim>\<open>getPoints\<close> lists
  the end points of the segments in order, skipping a point equal to the one listed last.
  \<^verbatim>\<open>Vector2.rotateAround(center, angle)\<close> rotates counter-clockwise about \<^verbatim>\<open>center\<close>.
\<close>

record Shape =
  curves :: "(vec2 \<times> vec2) list"
  currentPoint :: vec2

definition Shape_empty :: Shape where
  "Shape_empty = \<lparr>curves = [], currentPoint = (0, 0)\<rparr>"

definition moveTo :: "Shape \<Rightarrow> real \<Rightarrow> real \<Rightarrow> Shape" where
  "moveTo sh px py = sh\<lparr>currentPoint := (px, py)\<rparr>"

definition lineTo :: "Shape \<Rightarrow> real \<Rightarrow> real \<Rightarrow> Shape" where
  "lineTo sh px py = sh\<lparr>curves := curves sh @ [(currentPoint sh, (px, py))], currentPoint := (px, py)\<rparr>"

definition setFromPoints :: "Shape \<Rightarrow> vec2 list \<Rightarrow> error + Shape" where
  "setFromPoints sh points =
     (case points of
        [] \<Rightarrow> Inl TypeError
      | p0 # ps \<Rightarrow> Inr (fold (\<lambda>q acc. lineTo acc (fst q) (snd q)) ps (moveTo sh (fst p0) (snd p0))))"

text \<open>\<^verbatim>\<open>new THREE.Shape(points)\<close>\<close>

definition Shape_of_points :: "vec2 list \<Rightarrow> error + Shape" where
  "Shape_of_points points = setFromPoints Shape_empty points"

definition getPoints :: "Shape \<Rightarrow> vec2 list" where
  "getPoints sh = remdups_adj (concat (map (\<lambda>(v1, v2). [v1, v2]) (curves sh)))"

definition rotateAround :: "vec2 \<Rightarrow> vec2 \<Rightarrow> real \<Rightarrow> vec2" where
  "rotateAround vec center rot =
     (let c = cos rot; s = sin rot;
          dx = fst vec - fst center; dy = snd vec - snd center
      in (dx * c - dy * s + fst center, dx * s + dy * c + snd center))"

text \<open>
  The remainder operator \<^verbatim>\<open>a % b\<close> of JavaScript on numbers: \<open>a\<close> minus \<open>b\<close> times the quotient
  truncated towards zero.
\<close>

definition js_rem :: "real \<Rightarrow> real \<Rightarrow> real" where
  "js_rem a b = a - b * of_int (if 0 \<le> a / b then \<lfloor>a / b\<rfloor> else \<lceil>a / b\<rceil>)"

text \<open>The optional third argument is the parameter \<^verbatim>\<open>origin = ORIGIN_VEC2\<close>.\<close>

definition rotateVec2Array :: "vec2 list \<Rightarrow> real \<Rightarrow> vec2 option \<Rightarrow> vec2 list" where
  "rotateVec2Array array rot origin_arg =
     (let origin = (case origin_arg of None \<Rightarrow> ORIGIN_VEC2 | Some c \<Rightarrow> c)
      in map (\<lambda>vec. rotateAround vec origin rot) array)"

definition rotateShape :: "Shape \<Rightarrow> real \<Rightarrow> error + Shape" where
  "rotateShape shape rotationAngle =
     (if js_rem rotationAngle (2 * pi) = 0 then Inr shape
      else Shape_of_points (rotateVec2Array (getPoints shape) rotationAngle None))"

definition reflectVec2Array :: "vec2 list \<Rightarrow> real \<Rightarrow> vec2 list" where
  "reflectVec2Array array rot =
     map (\<lambda>vec. (cos (2 * rot) * fst vec + sin (2 * rot) * snd vec,
                 sin (2 * rot) * fst vec - cos (2 * rot) * snd vec)) array"

text \<open>
  The rotation of the plane about the origin by an angle, counter-clockwise positive, written
  out on its own: the symmetry of the gear is stated with it, not with the code's
  \<^verbatim>\<open>rotateVec2Array\<close>.
\<close>

definition rotate_ccw :: "real \<Rightarrow> vec2 \<Rightarrow> vec2" where
  "rotate_ccw a v = (fst v * cos a - snd v * sin a, fst v * sin a + snd v * cos a)"

subsection \<open>One tooth, and the whole gear\<close>

definition generateGearSegment ::
  "real \<Rightarrow> real \<Rightarrow> real \<Rightarrow> real \<Rightarrow> real \<Rightarrow> (error + Shape) option" where
  "generateGearSegment pitchAngle baseRadius maxRadius minRadius alpha =
     (case generateInvoluteCurve baseRadius maxRadius None of
        None \<Rightarrow> None
      | Some involutePoints1 \<Rightarrow>
          (let involutePoints2 = reflectVec2Array involutePoints1 (pitchAngle / 4 + alpha);
               involuteToothProfile = involutePoints1 @ rev involutePoints2
           in case setFromPoints (moveTo Shape_empty baseRadius 0) involuteToothProfile of
                Inl e \<Rightarrow> Some (Inl e)
              | Inr sh1 \<Rightarrow>
                  (let pt = polToCar minRadius (pitchAngle * 0.5 + 2 * alpha);
                       sh2 = lineTo sh1 (fst pt) (snd pt);
                       pt' = polToCar minRadius pitchAngle;
                       sh3 = lineTo sh2 (fst pt') (snd pt');
                       segmentShape = lineTo sh3 0 0
                   in Some (rotateShape segmentShape (-1 * alpha)))))"

record GearParams =
  p_pressureAngle :: real
  p_pressureAngleDeg :: real
  p_pitchAngle :: real
  p_pitchCircleRadius :: real
  p_baseCircleRadius :: real
  p_addendum :: real
  p_dedendum :: real
  p_maxRadius :: real
  p_minRadius :: real
  p_alpha :: real
  p_teeth :: real
  p_mod :: real

text \<open>
  The \<^verbatim>\<open>for\<close> loop of \<^verbatim>\<open>generateGearShapeFromParams\<close>: the counter \<open>i\<close> is a natural number, the
  bound \<^verbatim>\<open>params.teeth\<close> is any number.
\<close>

function segments_for :: "Shape \<Rightarrow> GearParams \<Rightarrow> nat \<Rightarrow> Shape list \<Rightarrow> error + Shape list" where
  "segments_for segment params i segments =
     (if real i < p_teeth params
      then (case rotateShape segment (real i * p_pitchAngle params) of
              Inl e \<Rightarrow> Inl e
            | Inr sh \<Rightarrow> segments_for segment params (Suc i) (segments @ [sh]))
      else Inr segments)"
  by pat_completeness auto
termination
proof (relation "measure (\<lambda>(segment, params, i, segments). nat \<lceil>p_teeth params\<rceil> - i)")
  show "wf (measure (\<lambda>(segment, params, i, segments). nat \<lceil>p_teeth params\<rceil> - i))"
    by simp
next
  fix segment :: Shape and params :: GearParams and i :: nat and segments :: "Shape list"
    and sh :: Shape
  assume "real i < p_teeth params"
  then have "int i < \<lceil>p_teeth params\<rceil>"
    by (simp add: less_ceiling_iff)
  then have "nat \<lceil>p_teeth params\<rceil> - Suc i < nat \<lceil>p_teeth params\<rceil> - i"
    by linarith
  then show "((segment, params, Suc i, segments @ [sh]), (segment, params, i, segments))
      \<in> measure (\<lambda>(segment, params, i, segments). nat \<lceil>p_teeth params\<rceil> - i)"
    by simp
qed

definition generateGearShapeFromParams :: "GearParams \<Rightarrow> (error + Shape list) option" where
  "generateGearShapeFromParams params =
     (case generateGearSegment (p_pitchAngle params) (p_baseCircleRadius params)
             (p_maxRadius params) (p_minRadius params) (p_alpha params) of
        None \<Rightarrow> None
      | Some (Inl e) \<Rightarrow> Some (Inl e)
      | Some (Inr segment) \<Rightarrow> Some (segments_for segment params 0 []))"

definition generateGearParams :: "real \<Rightarrow> real \<Rightarrow> real \<Rightarrow> GearParams" where
  "generateGearParams teeth modl pressureAngleDeg =
     (let pressureAngle = degToRad pressureAngleDeg;
          pitchAngle = 2 * pi / teeth;
          pitchCircleRadius = modl * teeth / 2;
          baseCircleRadius = pitchCircleRadius * cos pressureAngle;
          addendum = modl;
          dedendum = 1.2 * modl;
          maxRadius = pitchCircleRadius + addendum;
          minRadius = pitchCircleRadius - dedendum;
          alpha = (sqrt (pitchCircleRadius ^ 2 - baseCircleRadius ^ 2) / baseCircleRadius) - pressureAngle
      in \<lparr>p_pressureAngle = pressureAngle,
          p_pressureAngleDeg = pressureAngleDeg,
          p_pitchAngle = pitchAngle,
          p_pitchCircleRadius = pitchCircleRadius,
          p_baseCircleRadius = baseCircleRadius,
          p_addendum = addendum,
          p_dedendum = dedendum,
          p_maxRadius = maxRadius,
          p_minRadius = minRadius,
          p_alpha = alpha,
          p_teeth = teeth,
          p_mod = modl\<rparr>)"

text \<open>
  The inputs the spec calls valid: a whole number of teeth, at least one; a positive module;
  a pressure angle (given in degrees) strictly between 0 and a right angle.
\<close>

definition validGearInput :: "real \<Rightarrow> real \<Rightarrow> real \<Rightarrow> bool" where
  "validGearInput teeth modl pressureAngleDeg =
     (of_int \<lfloor>teeth\<rfloor> = teeth \<and> 1 \<le> teeth \<and> 0 < modl \<and>
      0 < degToRad pressureAngleDeg \<and> degToRad pressureAngleDeg < pi / 2)"

subsection \<open>The derived parameters in double arithmetic\<close>

text \<open>
  The numbers of the source are IEEE 754 doubles, and each arithmetic operation returns the
  exact result rounded to the nearest double, ties to the even one. \<open>fl\<close> is that rounding, on
  the reals: a double is a real of the form \<open>k \<sqdot> 2 ^ (e - 52)\<close> with \<open>k\<close> a whole number and
  \<open>\<bar>k\<bar> \<le> 2 ^ 53\<close>, where \<open>e\<close> is the binary exponent of the number, at least \<open>-1022\<close> (below
  it the doubles are evenly spaced).
  Overflow to \<^verbatim>\<open>Infinity\<close> and \<^verbatim>\<open>NaN\<close> are not modelled: \<open>fl\<close> is the rounding of the source for
  magnitudes below \<open>2 ^ 1024\<close>.
\<close>

definition round_ties_even :: "real \<Rightarrow> int" where
  "round_ties_even y =
     (if y - of_int \<lfloor>y\<rfloor> < 1 / 2 then \<lfloor>y\<rfloor>
      else if 1 / 2 < y - of_int \<lfloor>y\<rfloor> then \<lfloor>y\<rfloor> + 1
      else if even \<lfloor>y\<rfloor> then \<lfloor>y\<rfloor> else \<lfloor>y\<rfloor> + 1)"

definition double_exponent :: "real \<Rightarrow> int" where
  "double_exponent x = max \<lfloor>log 2 \<bar>x\<bar>\<rfloor> (- 1022)"

definition double_ulp :: "real \<Rightarrow> real" where
  "double_ulp x = 2 powr (of_int (double_exponent x) - 52)"

definition fl :: "real \<Rightarrow> real" where
  "fl x = (if x = 0 then 0 else of_int (round_ties_even (x / double_ulp x)) * double_ulp x)"

text \<open>
  \<^verbatim>\<open>generateGearParams\<close> as the source computes it, operation by operation, in doubles.
  \<^verbatim>\<open>Math.PI\<close> is the double nearest to \<open>\<pi>\<close> and the literal \<^verbatim>\<open>1.2\<close> the double nearest to \<open>1.2\<close>. The
  results of \<^verbatim>\<open>Math.cos\<close>, \<^verbatim>\<open>Math.sqrt\<close> and \<^verbatim>\<open>**\<close> are left to the implementation by the
  language, so the three functions are parameters.
\<close>

definition generateGearParams_double ::
  "(real \<Rightarrow> real) \<Rightarrow> (real \<Rightarrow> real) \<Rightarrow> (real \<Rightarrow> real \<Rightarrow> real) \<Rightarrow> real \<Rightarrow> real \<Rightarrow> real \<Rightarrow> GearParams" where
  "generateGearParams_double Math_cos Math_sqrt Math_pow teeth modl pressureAngleDeg =
     (let pressureAngle = fl (fl (pressureAngleDeg * fl pi) / 180);
          pitchAngle = fl (fl (2 * fl pi) / teeth);
          pitchCircleRadius = fl (fl (modl * teeth) / 2);
          baseCircleRadius = fl (pitchCircleRadius * Math_cos pressureAngle);
          addendum = modl;
          dedendum = fl (fl 1.2 * modl);
          maxRadius = fl (pitchCircleRadius + addendum);
          minRadius = fl (pitchCircleRadius - dedendum);
          alpha = fl (fl (Math_sqrt (fl (Math_pow pitchCircleRadius 2 - Math_pow baseCircleRadius 2))
                          / baseCircleRadius) - pressureAngle)
      in \<lparr>p_pressureAngle = pressureAngle,
          p_pressureAngleDeg = pressureAngleDeg,
          p_pitchAngle = pitchAngle,
          p_pitchCircleRadius = pitchCircleRadius,
          p_baseCircleRadius = baseCircleRadius,
          p_addendum = addendum,
          p_dedendum = dedendum,
          p_maxRadius = maxRadius,
          p_minRadius = minRadius,
          p_alpha = alpha,
          p_teeth = teeth,
          p_mod = modl\<rparr>)"

subsection \<open>The gear tree\<close>

text \<open>
  A \<^verbatim>\<open>THREE.Mesh\<close> is kept as what the source reads and writes of it: the shapes its geometry
  was extruded from, \<^verbatim>\<open>rotation.z\<close>, \<^verbatim>\<open>position.x\<close> and \<^verbatim>\<open>position.y\<close> (a new mesh has
  rotation and position 0). The colour and the material of a gear, drawn with
  \<^verbatim>\<open>Math.random\<close>, are rendering state read by no operation below and are left out.
\<close>

record Mesh =
  mesh_geometry :: "Shape list"
  rotation_z :: real
  position_x :: real
  position_y :: real

text \<open>
  Gears are objects that refer to each other (\<^verbatim>\<open>pinion\<close>, \<^verbatim>\<open>childGears\<close>), so they live in a
  store: the list of all gears constructed so far, a reference being the index of a gear.
  The constructor appends the new gear. A reference of the program always points to a gear;
  the statements below say so of the references they take (\<open>this < length s\<close>).
\<close>

type_synonym gear_ref = nat

record Gear =
  g_teeth :: real
  g_mod :: real
  g_parameters :: GearParams
  g_mesh :: Mesh
  g_angle :: real
  g_x :: real
  g_y :: real
  g_childGears :: "gear_ref set"
  g_pinion :: "gear_ref option"
  g_ratio :: real
  g_rotationSpeed :: real

type_synonym store = "Gear list"

definition createGeometry :: "GearParams \<Rightarrow> (error + Mesh) option" where
  "createGeometry parameters =
     (case generateGearShapeFromParams parameters of
        None \<Rightarrow> None
      | Some (Inl e) \<Rightarrow> Some (Inl e)
      | Some (Inr shape) \<Rightarrow>
          Some (Inr \<lparr>mesh_geometry = shape, rotation_z = 0, position_x = 0, position_y = 0\<rparr>))"

text \<open>
  The polygons that \<^verbatim>\<open>createGeometry\<close> hands to the extrusion, where the generator returns
  them: a name for the geometry of a gear in the statements below.
\<close>

definition geometry_of :: "GearParams \<Rightarrow> Shape list" where
  "geometry_of parameters =
     (case generateGearShapeFromParams parameters of Some (Inr shape) \<Rightarrow> shape | _ \<Rightarrow> [])"

text \<open>The getter and the setter of \<^verbatim>\<open>rotation\<close>.\<close>

definition rotation :: "store \<Rightarrow> gear_ref \<Rightarrow> real" where
  "rotation s this = rotation_z (g_mesh (s ! this))"

definition set_rotation :: "store \<Rightarrow> gear_ref \<Rightarrow> real \<Rightarrow> store" where
  "set_rotation s this rot = s[this := (s ! this)\<lparr>g_mesh := (g_mesh (s ! this))\<lparr>rotation_z := rot\<rparr>\<rparr>]"

definition driveBy :: "store \<Rightarrow> gear_ref \<Rightarrow> real \<Rightarrow> store" where
  "driveBy s this ang = set_rotation s this (rotation s this + ang * g_rotationSpeed (s ! this))"

definition setPosition :: "store \<Rightarrow> gear_ref \<Rightarrow> real \<Rightarrow> real \<Rightarrow> store" where
  "setPosition s this px py =
     s[this := (s ! this)\<lparr>g_x := px, g_y := py,
                          g_mesh := (g_mesh (s ! this))\<lparr>position_x := px, position_y := py\<rparr>\<rparr>]"

definition calculateRatio :: "store \<Rightarrow> gear_ref \<Rightarrow> store" where
  "calculateRatio s this =
     (case g_pinion (s ! this) of
        Some pinion \<Rightarrow>
          (let s1 = s[this := (s ! this)\<lparr>g_ratio := g_teeth (s ! pinion) / g_teeth (s ! this)\<rparr>]
           in s1[this := (s1 ! this)\<lparr>g_rotationSpeed :=
                    -1 * g_rotationSpeed (s1 ! pinion) * g_ratio (s1 ! this)\<rparr>])
      | None \<Rightarrow> s[this := (s ! this)\<lparr>g_ratio := 1, g_rotationSpeed := 1\<rparr>])"

definition positionGear :: "store \<Rightarrow> gear_ref \<Rightarrow> store" where
  "positionGear s this =
     (case g_pinion (s ! this) of
        Some pinion \<Rightarrow>
          (let centreDistance =
                 (g_mod (s ! this) * g_teeth (s ! this) + g_mod (s ! this) * g_teeth (s ! pinion)) / 2;
               offsetX = centreDistance * cos (g_angle (s ! this));
               offsetY = centreDistance * sin (g_angle (s ! this))
           in setPosition s this (g_x (s ! pinion) + offsetX) (g_y (s ! pinion) + offsetY))
      | None \<Rightarrow> s)"

definition rotateGear :: "store \<Rightarrow> gear_ref \<Rightarrow> store" where
  "rotateGear s this =
     (case g_pinion (s ! this) of
        Some pinion \<Rightarrow>
          (let s1 = set_rotation s this (rotation s this + (pi + g_angle (s ! this)))
           in set_rotation s1 this
                (rotation s1 this + (g_angle (s1 ! this) - rotation s1 pinion) * g_ratio (s1 ! this)))
      | None \<Rightarrow> s)"

text \<open>
  The constructor, with its optional arguments \<^verbatim>\<open>mod = 3\<close>, \<^verbatim>\<open>pressureAngleDeg = 20\<close> and
  \<^verbatim>\<open>pinion\<close>. It builds the geometry first, which may raise or not return, then sets the
  defaults and calls \<^verbatim>\<open>calculateRatio\<close>, which assigns \<^verbatim>\<open>ratio\<close> and \<^verbatim>\<open>rotationSpeed\<close> on both of
  its branches (until then the two fields are unassigned; the record holds 0 for them).
\<close>

definition Gear_new ::
  "store \<Rightarrow> real \<Rightarrow> real option \<Rightarrow> real option \<Rightarrow> gear_ref option \<Rightarrow> (error + store \<times> gear_ref) option" where
  "Gear_new s teeth mod_arg pressureAngleDeg_arg pinion =
     (let modl = (case mod_arg of None \<Rightarrow> 3 | Some m \<Rightarrow> m);
          pressureAngleDeg = (case pressureAngleDeg_arg of None \<Rightarrow> 20 | Some d \<Rightarrow> d);
          parameters = generateGearParams teeth modl pressureAngleDeg
      in case createGeometry parameters of
           None \<Rightarrow> None
         | Some (Inl e) \<Rightarrow> Some (Inl e)
         | Some (Inr mesh) \<Rightarrow>
             (let this = length s;
                  s1 = s @ [\<lparr>g_teeth = teeth, g_mod = modl, g_parameters = parameters,
                             g_mesh = mesh, g_angle = 0, g_x = 0, g_y = 0, g_childGears = {},
                             g_pinion = pinion, g_ratio = 0, g_rotationSpeed = 0\<rparr>]
              in Some (Inr (calculateRatio s1 this, this))))"

definition addGear :: "store \<Rightarrow> gear_ref \<Rightarrow> real \<Rightarrow> real \<Rightarrow> (error + store \<times> gear_ref) option" where
  "addGear s this teeth ang =
     (case Gear_new s teeth (Some (g_mod (s ! this)))
             (Some (p_pressureAngleDeg (g_parameters (s ! this)))) (Some this) of
        None \<Rightarrow> None
      | Some (Inl e) \<Rightarrow> Some (Inl e)
      | Some (Inr (s1, newGear)) \<Rightarrow>
          (let s2 = s1[this := (s1 ! this)\<lparr>g_childGears := insert newGear (g_childGears (s1 ! this))\<rparr>];
               s3 = s2[newGear := (s2 ! newGear)\<lparr>g_angle := ang\<rparr>];
               s4 = positionGear s3 newGear;
               s5 = rotateGear s4 newGear
           in Some (Inr (s5, newGear))))"

text \<open>
  The pinion relation of a store, and the stores that the constructor and the methods of
  \<^verbatim>\<open>Gear\<close> build from the empty one. A pinion handed to the constructor is a gear that exists.
\<close>

definition pinion_rel :: "store \<Rightarrow> (gear_ref \<times> gear_ref) set" where
  "pinion_rel s = {(g, p). g < length s \<and> g_pinion (s ! g) = Some p}"

definition pinion_older :: "store \<Rightarrow> bool" where
  "pinion_older s = list_all (\<lambda>g. case g_pinion (s ! g) of None \<Rightarrow> True | Some p \<Rightarrow> p < g) [0..<length s]"

inductive built :: "store \<Rightarrow> bool" where
  built_empty: "built []"
| built_new: "built s \<Longrightarrow> (case pinion of None \<Rightarrow> True | Some p \<Rightarrow> p < length s) \<Longrightarrow>
     Gear_new s teeth mod_arg deg_arg pinion = Some (Inr (s', g)) \<Longrightarrow> built s'"
| built_addGear: "built s \<Longrightarrow> this < length s \<Longrightarrow>
     addGear s this teeth ang = Some (Inr (s', g)) \<Longrightarrow> built s'"
| built_driveBy: "built s \<Longrightarrow> this < length s \<Longrightarrow> built (driveBy s this ang)"
| built_setPosition: "built s \<Longrightarrow> this < length s \<Longrightarrow> built (setPosition s this px py)"
| built_calculateRatio: "built s \<Longrightarrow> this < length s \<Longrightarrow> built (calculateRatio s this)"
| built_positionGear: "built s \<Longrightarrow> this < length s \<Longrightarrow> built (positionGear s this)"
| built_rotateGear: "built s \<Longrightarrow> this < length s \<Longrightarrow> built (rotateGear s this)"

section \<open>Properties\<close>

subsection \<open>The involute sampler\<close>

lemma vec2_length_involutePoint:
  "vec2_length (involutePoint t b) = \<bar>b\<bar> * sqrt (1 + t\<^sup>2)"
proof -
  have "(b * (cos t + t * sin t)) * (b * (cos t + t * sin t))
        + (b * (sin t - t * cos t)) * (b * (sin t - t * cos t))
        = b\<^sup>2 * ((sin t)\<^sup>2 + (cos t)\<^sup>2) * (1 + t\<^sup>2)"
    by algebra
  also have "\<dots> = b\<^sup>2 * (1 + t\<^sup>2)"
    by simp
  finally show ?thesis
    by (simp add: vec2_length_def involutePoint_def real_sqrt_mult)
qed

lemma involute_while_exit:
  "\<not> vec2_length point < m \<Longrightarrow> involute_while b m step t point acc = Some acc"
  by (subst involute_while.simps) simp

lemma involute_while_step:
  "vec2_length point < m \<Longrightarrow>
   involute_while b m step t point acc =
   involute_while b m step (t + step) (involutePoint t b) (acc @ [involutePoint t b])"
  by (subst involute_while.simps) simp

lemma involutePoint_far:
  assumes "0 < b" and "m / b \<le> t"
  shows "\<not> vec2_length (involutePoint t b) < m"
proof -
  have "m \<le> b * t"
    using assms by (simp add: pos_divide_le_eq mult.commute)
  also have "t \<le> sqrt (1 + t\<^sup>2)"
  proof -
    have "t \<le> \<bar>t\<bar>" by simp
    also have "\<bar>t\<bar> = sqrt (t\<^sup>2)" by simp
    also have "\<dots> \<le> sqrt (1 + t\<^sup>2)" by (rule real_sqrt_le_mono) simp
    finally show ?thesis .
  qed
  finally have "m \<le> b * sqrt (1 + t\<^sup>2)"
    using assms(1) by simp
  then show ?thesis
    using assms(1) by (simp add: vec2_length_involutePoint)
qed

lemma involute_while_returns:
  assumes "0 < b" and "0 < step"
  shows "(m / b - t) / step \<le> real n \<Longrightarrow>
    \<exists>rest. involute_while b m step t point acc = Some (acc @ rest) \<and>
      (vec2_length point < m \<longrightarrow> rest \<noteq> [] \<and> hd rest = involutePoint t b)"
proof (induction n arbitrary: t point acc)
  case 0
  then have far: "m / b \<le> t"
    using assms(2) by (simp add: divide_le_0_iff)
  show ?case
  proof (cases "vec2_length point < m")
    case False
    then show ?thesis by (simp add: involute_while_exit)
  next
    case True
    have "involute_while b m step t point acc = Some (acc @ [involutePoint t b])"
      using True involutePoint_far [OF assms(1) far]
      by (simp add: involute_while_step involute_while_exit)
    then show ?thesis by simp
  qed
next
  case (Suc n)
  show ?case
  proof (cases "vec2_length point < m")
    case False
    then show ?thesis by (simp add: involute_while_exit)
  next
    case True
    have "(m / b - (t + step)) / step = (m / b - t) / step - 1"
      using assms(2) by (simp add: field_simps)
    with Suc.prems have "(m / b - (t + step)) / step \<le> real n"
      by simp
    from Suc.IH [OF this, of "involutePoint t b" "acc @ [involutePoint t b]"]
    obtain rest where
      "involute_while b m step (t + step) (involutePoint t b) (acc @ [involutePoint t b])
         = Some ((acc @ [involutePoint t b]) @ rest)"
      by blast
    then have "involute_while b m step t point acc = Some (acc @ (involutePoint t b # rest))"
      using True by (simp add: involute_while_step)
    then show ?thesis by simp
  qed
qed

lemma involute_endpoint_length:
  assumes "0 < b" and "b \<le> m"
  shows "vec2_length (involutePoint (sqrt (m ^ 2 / b ^ 2 - 1)) b) = m"
proof -
  have "1 \<le> m\<^sup>2 / b\<^sup>2"
    using assms by (simp add: power_mono)
  then have "(sqrt (m\<^sup>2 / b\<^sup>2 - 1))\<^sup>2 = m\<^sup>2 / b\<^sup>2 - 1"
    by simp
  then have "sqrt (1 + (sqrt (m\<^sup>2 / b\<^sup>2 - 1))\<^sup>2) = sqrt (m\<^sup>2 / b\<^sup>2)"
    by simp
  also have "\<dots> = m / b"
    using assms by (simp add: real_sqrt_divide)
  finally show ?thesis
    using assms by (simp add: vec2_length_involutePoint)
qed

lemma generateInvoluteCurve_returns:
  assumes "0 < b" and "0 < (case step_arg of None \<Rightarrow> INVOLUTE_STEP | Some s \<Rightarrow> s)"
  shows "\<exists>pts. generateInvoluteCurve b m step_arg = Some (pts @ [involutePoint (sqrt (m ^ 2 / b ^ 2 - 1)) b]) \<and>
           (b < m \<longrightarrow> pts \<noteq> [] \<and> hd pts = involutePoint 0 b)"
proof -
  define step where "step = (case step_arg of None \<Rightarrow> INVOLUTE_STEP | Some s \<Rightarrow> s)"
  obtain n where "(m / b - 0) / step \<le> real n"
    using real_arch_simple by blast
  from involute_while_returns [OF assms(1) assms(2) [folded step_def] this, of "involutePoint 0 b" "[]"]
  obtain rest where r: "involute_while b m step 0 (involutePoint 0 b) [] = Some rest"
    and h: "vec2_length (involutePoint 0 b) < m \<longrightarrow> rest \<noteq> [] \<and> hd rest = involutePoint 0 b"
    by auto
  have "vec2_length (involutePoint 0 b) = b"
    using assms(1) by (simp add: vec2_length_involutePoint)
  with h have "b < m \<longrightarrow> rest \<noteq> [] \<and> hd rest = involutePoint 0 b"
    by simp
  moreover have "generateInvoluteCurve b m step_arg = Some (rest @ [involutePoint (sqrt (m ^ 2 / b ^ 2 - 1)) b])"
    using r by (simp add: generateInvoluteCurve_def step_def [symmetric])
  ultimately show ?thesis by blast
qed

text \<open>
  Claim C2, as the code has it. For every base radius \<open>b > 0\<close> and maximal radius \<open>m \<ge> b\<close> the
  sampler (with its default step) returns; the last point it returns is the exact end point,
  computed at \<open>t_end = sqrt (m\<^sup>2 / b\<^sup>2 - 1)\<close>, and the distance of that point from the origin
  is \<open>m\<close>. It returns at least two points when \<open>m > b\<close>, and at least one when \<open>m = b\<close>.
\<close>

theorem generateInvoluteCurve_endpoint:
  assumes "0 < b" and "b \<le> m"
  shows "\<exists>ps. generateInvoluteCurve b m None = Some ps \<and> 1 \<le> length ps \<and>
           (b < m \<longrightarrow> 2 \<le> length ps) \<and>
           last ps = involutePoint (sqrt (m ^ 2 / b ^ 2 - 1)) b \<and>
           vec2_length (last ps) = m"
proof -
  have "0 < (case None of None \<Rightarrow> INVOLUTE_STEP | Some s \<Rightarrow> s)"
    by (simp add: INVOLUTE_STEP_def)
  from generateInvoluteCurve_returns [OF assms(1) this, of m]
  obtain pts where
    r: "generateInvoluteCurve b m None = Some (pts @ [involutePoint (sqrt (m ^ 2 / b ^ 2 - 1)) b])"
    and ne: "b < m \<longrightarrow> pts \<noteq> []"
    by blast
  have "b < m \<longrightarrow> 2 \<le> length (pts @ [involutePoint (sqrt (m ^ 2 / b ^ 2 - 1)) b])"
    using ne by (cases pts) simp_all
  then show ?thesis
    using r involute_endpoint_length [OF assms] by simp
qed

theorem generateInvoluteCurve_endpoint_witness:
  "(0::real) < 1 \<and> (1::real) \<le> 2 \<and>
   (\<exists>ps. generateInvoluteCurve 1 2 None = Some ps \<and> 1 \<le> length ps \<and> 2 \<le> length ps \<and>
      last ps = involutePoint (sqrt (2 ^ 2 / 1 ^ 2 - 1)) 1 \<and> vec2_length (last ps) = 2)"
  using generateInvoluteCurve_endpoint [of 1 2] by simp

text \<open>
  Claim C2 as stated fails at \<open>m = b\<close>: the loop tests the point at \<open>t = 0\<close>, whose distance
  from the origin is \<open>b\<close>, before it appends anything, so for \<open>b = m = 1\<close> the end point is the
  only point returned.
\<close>

theorem generateInvoluteCurve_single_point:
  "generateInvoluteCurve 1 1 None = Some [(1, 0)] \<and> \<not> 2 \<le> length [(1::real, 0::real)]"
  by (simp add: generateInvoluteCurve_def involute_while_exit vec2_length_def involutePoint_def)

subsection \<open>The derived parameters\<close>

lemma cos_less_one:
  assumes "0 < (a::real)" and "a < pi / 2"
  shows "cos a < 1"
proof -
  have "cos a < cos 0"
    using assms by (intro cos_monotone_0_pi) simp_all
  then show ?thesis by simp
qed

lemma pitch_base_max:
  assumes "0 < teeth" and "0 < modl" and "0 < degToRad deg" and "degToRad deg < pi / 2"
  shows "0 < p_baseCircleRadius (generateGearParams teeth modl deg)"
    and "p_baseCircleRadius (generateGearParams teeth modl deg)
           < p_pitchCircleRadius (generateGearParams teeth modl deg)"
    and "p_pitchCircleRadius (generateGearParams teeth modl deg)
           < p_maxRadius (generateGearParams teeth modl deg)"
    and "p_minRadius (generateGearParams teeth modl deg)
           < p_pitchCircleRadius (generateGearParams teeth modl deg)"
proof -
  have p: "0 < modl * teeth / 2"
    using assms by simp
  have c: "0 < cos (degToRad deg)"
    using assms by (intro cos_gt_zero_pi) simp_all
  show "0 < p_baseCircleRadius (generateGearParams teeth modl deg)"
    using p c by (simp add: generateGearParams_def Let_def)
  have "modl * teeth / 2 * cos (degToRad deg) < modl * teeth / 2 * 1"
    using p cos_less_one [OF assms(3,4)] by (intro mult_strict_left_mono)
  then show "p_baseCircleRadius (generateGearParams teeth modl deg)
           < p_pitchCircleRadius (generateGearParams teeth modl deg)"
    by (simp add: generateGearParams_def Let_def)
  show "p_pitchCircleRadius (generateGearParams teeth modl deg)
           < p_maxRadius (generateGearParams teeth modl deg)"
    using assms(2) by (simp add: generateGearParams_def Let_def)
  show "p_minRadius (generateGearParams teeth modl deg)
           < p_pitchCircleRadius (generateGearParams teeth modl deg)"
    using assms(2) by (simp add: generateGearParams_def Let_def)
qed

lemma validGearInput_20_3_20: "validGearInput 20 3 20"
  by (simp add: validGearInput_def degToRad_def)

lemma fl_binade:
  assumes "0 < x" and "2 powr of_int e \<le> x" and "x < 2 powr (of_int e + 1)" and "- 1022 \<le> e"
  shows "fl x = of_int (round_ties_even (x / 2 powr (of_int e - 52))) * 2 powr (of_int e - 52)"
proof -
  have "\<lfloor>log 2 x\<rfloor> = e"
    using assms(1-3) by (simp add: floor_log_eq_powr_iff)
  then have "double_exponent x = e"
    using assms(1,4) by (simp add: double_exponent_def)
  then show ?thesis
    using assms(1) by (simp add: fl_def double_ulp_def)
qed

lemma fl_1e17: "fl 100000000000000000 = 100000000000000000"
  by (subst fl_binade [where e = 56]) (simp_all add: round_ties_even_def)

lemma fl_5e16: "fl 50000000000000000 = 50000000000000000"
  by (subst fl_binade [where e = 55]) (simp_all add: round_ties_even_def)

lemma fl_5e16_plus_1: "fl 50000000000000001 = 50000000000000000"
  by (subst fl_binade [where e = 55]) (simp_all add: round_ties_even_def)

lemma round_ties_even_bounds:
  "\<lfloor>y\<rfloor> \<le> round_ties_even y" "round_ties_even y \<le> \<lfloor>y\<rfloor> + 1"
  by (simp_all add: round_ties_even_def)

lemma round_ties_even_of_int: "round_ties_even (of_int k) = k"
  by (simp add: round_ties_even_def)

lemma round_ties_even_mono:
  assumes "x \<le> y"
  shows "round_ties_even x \<le> round_ties_even y"
proof (cases "\<lfloor>x\<rfloor> = \<lfloor>y\<rfloor>")
  case False
  with assms have "\<lfloor>x\<rfloor> < \<lfloor>y\<rfloor>"
    using floor_mono [OF assms] by linarith
  then have "\<lfloor>x\<rfloor> + 1 \<le> \<lfloor>y\<rfloor>"
    by simp
  with round_ties_even_bounds(2) [of x] round_ties_even_bounds(1) [of y] show ?thesis
    by linarith
next
  case True
  with assms have "x - of_int \<lfloor>x\<rfloor> \<le> y - of_int \<lfloor>y\<rfloor>"
    by simp
  with True show ?thesis
    unfolding round_ties_even_def by auto
qed

lemma fl_0: "fl 0 = 0"
  by (simp add: fl_def)

lemma double_ulp_pos: "0 < double_ulp x"
  by (simp add: double_ulp_def)

lemma fl_nonneg: "0 \<le> x \<Longrightarrow> 0 \<le> fl x"
proof -
  assume "0 \<le> x"
  then have "0 \<le> x / double_ulp x"
    using double_ulp_pos [of x] by simp
  then have "round_ties_even 0 \<le> round_ties_even (x / double_ulp x)"
    by (rule round_ties_even_mono)
  then have "0 \<le> round_ties_even (x / double_ulp x)"
    using round_ties_even_of_int [of 0] by simp
  then show ?thesis
    using double_ulp_pos [of x] by (simp add: fl_def)
qed

lemma fl_nonpos: "x \<le> 0 \<Longrightarrow> fl x \<le> 0"
proof -
  assume "x \<le> 0"
  then have "x / double_ulp x \<le> 0"
    using double_ulp_pos [of x] by (simp add: divide_le_0_iff)
  then have "round_ties_even (x / double_ulp x) \<le> round_ties_even 0"
    by (rule round_ties_even_mono)
  then have "round_ties_even (x / double_ulp x) \<le> 0"
    using round_ties_even_of_int [of 0] by simp
  then show ?thesis
    using double_ulp_pos [of x] by (simp add: fl_def mult_le_0_iff)
qed

lemma double_exponent_upper:
  assumes "0 < x"
  shows "x < 2 powr (of_int (double_exponent x) + 1)"
proof -
  have "log 2 x < of_int \<lfloor>log 2 x\<rfloor> + 1"
    by linarith
  also have "\<dots> \<le> of_int (double_exponent x) + 1"
    using assms by (simp add: double_exponent_def)
  finally have "log 2 x < of_int (double_exponent x) + 1" .
  then have "2 powr log 2 x < 2 powr (of_int (double_exponent x) + 1)"
    by simp
  then show ?thesis
    using assms by simp
qed

lemma double_exponent_lower:
  assumes "0 < x" and "- 1022 < double_exponent x"
  shows "2 powr of_int (double_exponent x) \<le> x"
proof -
  from assms have "double_exponent x = \<lfloor>log 2 x\<rfloor>"
    by (simp add: double_exponent_def max_def split: if_splits)
  then have "of_int (double_exponent x) \<le> log 2 x"
    by simp
  then have "2 powr of_int (double_exponent x) \<le> 2 powr log 2 x"
    by simp
  then show ?thesis
    using assms(1) by simp
qed

lemma double_exponent_mono:
  assumes "0 < x" and "x \<le> y"
  shows "double_exponent x \<le> double_exponent y"
proof -
  have "log 2 x \<le> log 2 y"
    using assms by simp
  then have "\<lfloor>log 2 x\<rfloor> \<le> \<lfloor>log 2 y\<rfloor>"
    by (rule floor_mono)
  then show ?thesis
    using assms by (simp add: double_exponent_def)
qed

lemma double_exponent_eqI:
  assumes "0 < x" and "x < 2 powr (of_int e + 1)" and "- 1022 \<le> e"
    and "- 1022 < e \<Longrightarrow> 2 powr of_int e \<le> x"
  shows "double_exponent x = e"
proof -
  have "log 2 x < of_int e + 1"
    using assms(1,2) by (simp add: log_less_iff)
  then have up: "\<lfloor>log 2 x\<rfloor> \<le> e"
    by linarith
  show ?thesis
  proof (cases "- 1022 < e")
    case True
    then have "of_int e \<le> log 2 x"
      using assms(1,4) by (simp add: le_log_iff)
    then have "e \<le> \<lfloor>log 2 x\<rfloor>"
      by linarith
    with up True assms(1) show ?thesis
      by (simp add: double_exponent_def)
  next
    case False
    with assms(3) have "e = - 1022" by simp
    with up assms(1) show ?thesis
      by (simp add: double_exponent_def)
  qed
qed

lemma fl_upper:
  assumes "0 < x"
  shows "fl x \<le> 2 powr (of_int (double_exponent x) + 1)"
proof -
  have "x / double_ulp x < 2 powr (of_int (double_exponent x) + 1) / double_ulp x"
    using double_exponent_upper [OF assms] double_ulp_pos [of x]
    by (simp add: divide_strict_right_mono)
  also have "\<dots> = 2 powr 53"
    by (simp add: double_ulp_def powr_diff [symmetric])
  also have "\<dots> = of_int (2 ^ 53)"
    by simp
  finally have "round_ties_even (x / double_ulp x) \<le> round_ties_even (of_int (2 ^ 53))"
    by (intro round_ties_even_mono) simp
  then have "round_ties_even (x / double_ulp x) \<le> 2 ^ 53"
    by (simp only: round_ties_even_of_int)
  then have "of_int (round_ties_even (x / double_ulp x)) \<le> (2 powr 53 :: real)"
    by (simp add: of_int_le_iff [symmetric] del: of_int_le_iff)
  then have "fl x \<le> 2 powr 53 * double_ulp x"
    using assms double_ulp_pos [of x] by (simp add: fl_def)
  also have "\<dots> = 2 powr (of_int (double_exponent x) + 1)"
  proof -
    have "(53::real) + (of_int (double_exponent x) - 52) = of_int (double_exponent x) + 1"
      by simp
    then show ?thesis
      unfolding double_ulp_def powr_add [symmetric] by (rule arg_cong)
  qed
  finally show ?thesis .
qed

lemma fl_lower:
  assumes "0 < x" and "- 1022 < double_exponent x"
  shows "2 powr of_int (double_exponent x) \<le> fl x"
proof -
  have "2 powr of_int (double_exponent x) / double_ulp x \<le> x / double_ulp x"
    using double_exponent_lower [OF assms] double_ulp_pos [of x]
    by (simp add: divide_right_mono)
  moreover have "2 powr of_int (double_exponent x) / double_ulp x = 2 powr 52"
    by (simp add: double_ulp_def powr_diff [symmetric])
  moreover have "(2 powr 52 :: real) = of_int (2 ^ 52)"
    by simp
  ultimately have "round_ties_even (of_int (2 ^ 52)) \<le> round_ties_even (x / double_ulp x)"
    by (intro round_ties_even_mono) simp
  then have "2 ^ 52 \<le> round_ties_even (x / double_ulp x)"
    by (simp only: round_ties_even_of_int)
  then have "(2 powr 52 :: real) \<le> of_int (round_ties_even (x / double_ulp x))"
    by (simp add: of_int_le_iff [symmetric] del: of_int_le_iff)
  then have "2 powr 52 * double_ulp x \<le> fl x"
    using assms(1) double_ulp_pos [of x] by (simp add: fl_def)
  moreover have "2 powr 52 * double_ulp x = 2 powr of_int (double_exponent x)"
  proof -
    have "(52::real) + (of_int (double_exponent x) - 52) = of_int (double_exponent x)"
      by simp
    then show ?thesis
      unfolding double_ulp_def powr_add [symmetric] by (rule arg_cong)
  qed
  ultimately show ?thesis by simp
qed

lemma fl_mono_pos:
  assumes "0 < x" and "x \<le> y"
  shows "fl x \<le> fl y"
proof (cases "double_exponent x = double_exponent y")
  case True
  then have u: "double_ulp x = double_ulp y"
    by (simp add: double_ulp_def)
  have "x / double_ulp y \<le> y / double_ulp y"
    using assms(2) double_ulp_pos [of y] by (simp add: divide_right_mono)
  then have "round_ties_even (x / double_ulp y) \<le> round_ties_even (y / double_ulp y)"
    by (rule round_ties_even_mono)
  then have "of_int (round_ties_even (x / double_ulp y)) * double_ulp y
      \<le> of_int (round_ties_even (y / double_ulp y)) * double_ulp y"
    using double_ulp_pos [of y] by simp
  then show ?thesis
    using assms by (simp add: fl_def u)
next
  case False
  with double_exponent_mono [OF assms] have less: "double_exponent x < double_exponent y"
    by simp
  have y: "0 < y"
    using assms by simp
  have "- 1022 \<le> double_exponent x"
    by (simp add: double_exponent_def)
  with less have "- 1022 < double_exponent y"
    by simp
  from fl_lower [OF y this] have "2 powr of_int (double_exponent y) \<le> fl y" .
  moreover have "fl x \<le> 2 powr (of_int (double_exponent x) + 1)"
    by (rule fl_upper [OF assms(1)])
  moreover have "(2::real) powr (of_int (double_exponent x) + 1) \<le> 2 powr of_int (double_exponent y)"
    using less by simp
  ultimately show ?thesis by linarith
qed

lemma fl_mono_nonneg:
  assumes "0 \<le> x" and "x \<le> y"
  shows "fl x \<le> fl y"
proof (cases "x = 0")
  case True
  with assms fl_nonneg [of y] show ?thesis
    by (simp add: fl_0)
next
  case False
  with assms have "0 < x" by simp
  then show ?thesis
    using assms(2) by (rule fl_mono_pos)
qed

lemma fl_fl_pos:
  assumes "0 < x"
  shows "fl (fl x) = fl x"
proof -
  define e where "e = double_exponent x"
  define u where "u = double_ulp x"
  define k where "k = round_ties_even (x / u)"
  have u: "u = 2 powr (of_int e - 52)" and upos: "0 < u"
    by (simp_all add: u_def e_def double_ulp_def)
  have flx: "fl x = of_int k * u"
    using assms by (simp add: fl_def k_def u_def)
  have e_low: "- 1022 \<le> e"
    by (simp add: e_def double_exponent_def)
  have "0 \<le> fl x"
    using assms by (intro fl_nonneg) simp
  then have k0: "0 \<le> k"
    using upos by (simp add: flx zero_le_mult_iff)
  have "fl x \<le> 2 powr (of_int e + 1)"
    unfolding e_def by (rule fl_upper [OF assms])
  moreover have top: "2 powr (of_int e + 1) = 2 powr 53 * u"
  proof -
    have "(53::real) + (of_int e - 52) = of_int e + 1" by simp
    then show ?thesis
      unfolding u powr_add [symmetric] by (rule arg_cong [symmetric])
  qed
  ultimately have "of_int k * u \<le> 2 powr 53 * u"
    by (simp add: flx)
  then have "of_int k \<le> (2 powr 53 :: real)"
    using upos by simp
  then have k_up: "k \<le> 2 ^ 53"
    by (simp add: of_int_le_iff [symmetric] del: of_int_le_iff)
  show ?thesis
  proof (cases "k = 0")
    case True
    then show ?thesis by (simp add: flx fl_0)
  next
    case False
    with k0 have kpos: "0 < k" by simp
    then have ypos: "0 < of_int k * u"
      using upos by simp
    show ?thesis
    proof (cases "k = 2 ^ 53")
      case True
      then have y: "of_int k * u = 2 powr (of_int (e + 1))"
        using top by simp
      have "double_exponent (2 powr (of_int (e + 1))) = e + 1"
        using e_low by (intro double_exponent_eqI) simp_all
      then have "double_ulp (2 powr (of_int (e + 1))) = 2 powr (of_int (e + 1) - 52)"
        by (simp add: double_ulp_def)
      moreover have "(2::real) powr (of_int (e + 1)) / 2 powr (of_int (e + 1) - 52) = of_int (2 ^ 52)"
      proof -
        have "(2::real) powr (of_int (e + 1)) / 2 powr (of_int (e + 1) - 52)
              = 2 powr (of_int (e + 1) - (of_int (e + 1) - 52))"
          by (simp only: powr_diff)
        also have "\<dots> = 2 powr 52"
          by simp
        also have "\<dots> = of_int (2 ^ 52)"
          by simp
        finally show ?thesis .
      qed
      moreover have "of_int (2 ^ 52) * (2::real) powr (of_int (e + 1) - 52) = 2 powr (of_int (e + 1))"
      proof -
        have "of_int (2 ^ 52) * (2::real) powr (of_int (e + 1) - 52)
              = 2 powr 52 * 2 powr (of_int (e + 1) - 52)"
          by simp
        also have "\<dots> = 2 powr (52 + (of_int (e + 1) - 52))"
          by (simp only: powr_add)
        also have "52 + (of_int (e + 1) - 52) = (of_int (e + 1) :: real)"
          by simp
        finally show ?thesis .
      qed
      ultimately have "fl (2 powr (of_int (e + 1))) = 2 powr (of_int (e + 1))"
        by (simp only: fl_def round_ties_even_of_int) simp
      then show ?thesis
        by (simp only: flx y)
    next
      case False
      with k_up have "k < 2 ^ 53" by simp
      then have "of_int k < (2 powr 53 :: real)"
        by (simp add: of_int_less_iff [symmetric] del: of_int_less_iff)
      then have "of_int k * u < 2 powr 53 * u"
        using upos by simp
      then have up: "of_int k * u < 2 powr (of_int e + 1)"
        by (simp only: top)
      have "double_exponent (of_int k * u) = e"
      proof (rule double_exponent_eqI [OF ypos up e_low])
        assume "- 1022 < e"
        then have "2 powr of_int e \<le> fl x"
          unfolding e_def by (intro fl_lower [OF assms])
        then show "2 powr of_int e \<le> of_int k * u"
          by (simp only: flx)
      qed
      then have "double_ulp (of_int k * u) = u"
        by (simp add: double_ulp_def u)
      moreover have "of_int k * u / u = of_int k"
        using upos by simp
      ultimately have "fl (of_int k * u) = of_int k * u"
        using ypos by (simp add: fl_def round_ties_even_of_int)
      then show ?thesis
        by (simp only: flx)
    qed
  qed
qed

lemma fl_fl_nonneg: "0 \<le> x \<Longrightarrow> fl (fl x) = fl x"
  by (cases "x = 0") (simp_all add: fl_0 fl_fl_pos)

lemma double_radii_order:
  assumes "0 \<le> modl" and "0 \<le> teeth" and "0 \<le> c" and "c \<le> 1"
  shows "fl (fl (fl (modl * teeth) / 2) * c) \<le> fl (fl (modl * teeth) / 2)"
    and "fl (fl (modl * teeth) / 2) \<le> fl (fl (fl (modl * teeth) / 2) + modl)"
    and "fl (fl (fl (modl * teeth) / 2) - fl (fl 1.2 * modl)) \<le> fl (fl (modl * teeth) / 2)"
proof -
  define r where "r = fl (fl (modl * teeth) / 2)"
  have half: "0 \<le> fl (modl * teeth) / 2"
    using assms(1,2) by (simp add: fl_nonneg)
  then have r0: "0 \<le> r"
    unfolding r_def by (rule fl_nonneg)
  have rr: "fl r = r"
    unfolding r_def using half by (rule fl_fl_nonneg)
  have "fl (r * c) \<le> fl r"
    using r0 assms(3,4) by (intro fl_mono_nonneg) (simp_all add: mult_left_le)
  then show "fl (fl (fl (modl * teeth) / 2) * c) \<le> fl (fl (modl * teeth) / 2)"
    by (simp add: rr r_def [symmetric])
  have "fl r \<le> fl (r + modl)"
    using r0 assms(1) by (intro fl_mono_nonneg) simp_all
  then show "fl (fl (modl * teeth) / 2) \<le> fl (fl (fl (modl * teeth) / 2) + modl)"
    by (simp add: rr r_def [symmetric])
  have d0: "0 \<le> fl (fl 1.2 * modl)"
    using assms(1) by (intro fl_nonneg mult_nonneg_nonneg) simp_all
  have "fl (r - fl (fl 1.2 * modl)) \<le> r"
  proof (cases "0 \<le> r - fl (fl 1.2 * modl)")
    case True
    then have "fl (r - fl (fl 1.2 * modl)) \<le> fl r"
      using d0 by (intro fl_mono_nonneg) simp_all
    then show ?thesis by (simp add: rr)
  next
    case False
    then have "fl (r - fl (fl 1.2 * modl)) \<le> 0"
      by (intro fl_nonpos) simp
    with r0 show ?thesis by simp
  qed
  then show "fl (fl (fl (modl * teeth) / 2) - fl (fl 1.2 * modl)) \<le> fl (fl (modl * teeth) / 2)"
    by (simp add: r_def [symmetric])
qed

lemma fl_1: "fl 1 = 1"
  by (subst fl_binade [where e = 0]) (simp_all add: round_ties_even_def powr_minus)

lemma fl_4: "fl 4 = 4"
  by (subst fl_binade [where e = 2]) (simp_all add: round_ties_even_def powr_minus)

lemma fl_80: "fl 80 = 80"
  by (subst fl_binade [where e = 6]) (simp_all add: round_ties_even_def powr_minus)

lemma validGearInput_1e17_1_20: "validGearInput 100000000000000000 1 20"
  by (simp add: validGearInput_def degToRad_def)

lemma double_pressureAngle_20:
  "0 \<le> fl (fl (20 * fl pi) / 180)" "fl (fl (20 * fl pi) / 180) \<le> 1"
proof -
  have p0: "0 \<le> fl pi"
    by (intro fl_nonneg) simp
  have "fl pi \<le> fl 4"
    using pi_less_4 by (intro fl_mono_nonneg) simp_all
  then have p4: "fl pi \<le> 4"
    by (simp add: fl_4)
  have "fl (20 * fl pi) \<le> fl 80"
    using p0 p4 by (intro fl_mono_nonneg) simp_all
  then have a: "fl (20 * fl pi) \<le> 80"
    by (simp add: fl_80)
  have b: "0 \<le> fl (20 * fl pi)"
    using p0 by (intro fl_nonneg) simp
  show "0 \<le> fl (fl (20 * fl pi) / 180)"
    using b by (intro fl_nonneg) simp
  have "fl (fl (20 * fl pi) / 180) \<le> fl 1"
    using a b by (intro fl_mono_nonneg) simp_all
  then show "fl (fl (20 * fl pi) / 180) \<le> 1"
    by (simp add: fl_1)
qed

lemma double_cos_20:
  "0 \<le> fl (cos (fl (fl (20 * fl pi) / 180)))" "fl (cos (fl (fl (20 * fl pi) / 180))) \<le> 1"
proof -
  have "fl (fl (20 * fl pi) / 180) \<le> pi / 2"
    using double_pressureAngle_20(2) pi_ge_two by linarith
  moreover have "- (pi / 2) \<le> fl (fl (20 * fl pi) / 180)"
    using double_pressureAngle_20(1) pi_ge_two by linarith
  ultimately have c: "0 \<le> cos (fl (fl (20 * fl pi) / 180))"
    by (intro cos_ge_zero)
  then show "0 \<le> fl (cos (fl (fl (20 * fl pi) / 180)))"
    by (rule fl_nonneg)
  have "fl (cos (fl (fl (20 * fl pi) / 180))) \<le> fl 1"
    using c by (intro fl_mono_nonneg) simp_all
  then show "fl (cos (fl (fl (20 * fl pi) / 180))) \<le> 1"
    by (simp add: fl_1)
qed

text \<open>
  Claim C7, as the code has it. For every valid input (a whole number of teeth, at least one;
  a positive module; a pressure angle strictly between 0 and \<open>\<pi>/2\<close>) the derived radii are
  ordered, \<open>baseCircleRadius < pitchCircleRadius < maxRadius\<close> and
  \<open>minRadius < pitchCircleRadius\<close>, in real arithmetic. As the source computes them, in doubles
  (with \<open>module \<sqdot> teeth\<close> at most \<open>2 ^ 1022\<close>, so that nothing overflows, and a \<^verbatim>\<open>Math.cos\<close> that
  returns a value between 0 and 1 at the pressure angle), the same order holds with \<open>\<le>\<close> in
  place of \<open><\<close>.
\<close>

theorem generateGearParams_ordering:
  assumes "validGearInput teeth modl deg"
  shows "(p_baseCircleRadius (generateGearParams teeth modl deg)
           < p_pitchCircleRadius (generateGearParams teeth modl deg) \<and>
         p_pitchCircleRadius (generateGearParams teeth modl deg)
           < p_maxRadius (generateGearParams teeth modl deg) \<and>
         p_minRadius (generateGearParams teeth modl deg)
           < p_pitchCircleRadius (generateGearParams teeth modl deg)) \<and>
        (modl * teeth \<le> 2 ^ 1022 \<and>
         0 \<le> Math_cos (fl (fl (deg * fl pi) / 180)) \<and>
         Math_cos (fl (fl (deg * fl pi) / 180)) \<le> 1 \<longrightarrow>
         p_baseCircleRadius (generateGearParams_double Math_cos Math_sqrt Math_pow teeth modl deg)
           \<le> p_pitchCircleRadius (generateGearParams_double Math_cos Math_sqrt Math_pow teeth modl deg) \<and>
         p_pitchCircleRadius (generateGearParams_double Math_cos Math_sqrt Math_pow teeth modl deg)
           \<le> p_maxRadius (generateGearParams_double Math_cos Math_sqrt Math_pow teeth modl deg) \<and>
         p_minRadius (generateGearParams_double Math_cos Math_sqrt Math_pow teeth modl deg)
           \<le> p_pitchCircleRadius (generateGearParams_double Math_cos Math_sqrt Math_pow teeth modl deg))"
proof (intro conjI impI)
  from assms have v: "0 < teeth" "0 < modl" "0 < degToRad deg" "degToRad deg < pi / 2"
    by (simp_all add: validGearInput_def)
  from pitch_base_max(2-4) [OF v]
  show "p_baseCircleRadius (generateGearParams teeth modl deg)
           < p_pitchCircleRadius (generateGearParams teeth modl deg)"
    and "p_pitchCircleRadius (generateGearParams teeth modl deg)
           < p_maxRadius (generateGearParams teeth modl deg)"
    and "p_minRadius (generateGearParams teeth modl deg)
           < p_pitchCircleRadius (generateGearParams teeth modl deg)"
    by simp_all
  assume "modl * teeth \<le> 2 ^ 1022 \<and>
         0 \<le> Math_cos (fl (fl (deg * fl pi) / 180)) \<and>
         Math_cos (fl (fl (deg * fl pi) / 180)) \<le> 1"
  then have c: "0 \<le> Math_cos (fl (fl (deg * fl pi) / 180))"
    "Math_cos (fl (fl (deg * fl pi) / 180)) \<le> 1"
    by simp_all
  have m: "0 \<le> modl" "0 \<le> teeth"
    using v by simp_all
  from double_radii_order [OF m c]
  show "p_baseCircleRadius (generateGearParams_double Math_cos Math_sqrt Math_pow teeth modl deg)
           \<le> p_pitchCircleRadius (generateGearParams_double Math_cos Math_sqrt Math_pow teeth modl deg)"
    and "p_pitchCircleRadius (generateGearParams_double Math_cos Math_sqrt Math_pow teeth modl deg)
           \<le> p_maxRadius (generateGearParams_double Math_cos Math_sqrt Math_pow teeth modl deg)"
    and "p_minRadius (generateGearParams_double Math_cos Math_sqrt Math_pow teeth modl deg)
           \<le> p_pitchCircleRadius (generateGearParams_double Math_cos Math_sqrt Math_pow teeth modl deg)"
    by (simp_all add: generateGearParams_double_def Let_def)
qed

theorem generateGearParams_ordering_witness:
  "validGearInput 20 3 20 \<and>
   p_baseCircleRadius (generateGearParams 20 3 20) < p_pitchCircleRadius (generateGearParams 20 3 20) \<and>
   p_pitchCircleRadius (generateGearParams 20 3 20) < p_maxRadius (generateGearParams 20 3 20) \<and>
   p_minRadius (generateGearParams 20 3 20) < p_pitchCircleRadius (generateGearParams 20 3 20) \<and>
   (3::real) * 20 \<le> 2 ^ 1022 \<and>
   0 \<le> fl (cos (fl (fl (20 * fl pi) / 180))) \<and>
   fl (cos (fl (fl (20 * fl pi) / 180))) \<le> 1 \<and>
   p_baseCircleRadius (generateGearParams_double (\<lambda>x. fl (cos x)) (\<lambda>x. fl (sqrt x)) (\<lambda>x y. fl (x powr y)) 20 3 20)
     \<le> p_pitchCircleRadius (generateGearParams_double (\<lambda>x. fl (cos x)) (\<lambda>x. fl (sqrt x)) (\<lambda>x y. fl (x powr y)) 20 3 20) \<and>
   p_pitchCircleRadius (generateGearParams_double (\<lambda>x. fl (cos x)) (\<lambda>x. fl (sqrt x)) (\<lambda>x y. fl (x powr y)) 20 3 20)
     \<le> p_maxRadius (generateGearParams_double (\<lambda>x. fl (cos x)) (\<lambda>x. fl (sqrt x)) (\<lambda>x y. fl (x powr y)) 20 3 20) \<and>
   p_minRadius (generateGearParams_double (\<lambda>x. fl (cos x)) (\<lambda>x. fl (sqrt x)) (\<lambda>x y. fl (x powr y)) 20 3 20)
     \<le> p_pitchCircleRadius (generateGearParams_double (\<lambda>x. fl (cos x)) (\<lambda>x. fl (sqrt x)) (\<lambda>x y. fl (x powr y)) 20 3 20)"
proof -
  have r: "(3::real) * 20 \<le> 2 ^ 1022"
    by simp
  from generateGearParams_ordering [OF validGearInput_20_3_20,
      where Math_cos = "\<lambda>x. fl (cos x)" and Math_sqrt = "\<lambda>x. fl (sqrt x)"
        and Math_pow = "\<lambda>x y. fl (x powr y)"]
    validGearInput_20_3_20 r double_cos_20
  show ?thesis
    by blast
qed

lemma fl_6_5: "fl (6 / 5) = 5404319552844595 / 4503599627370496"
  by (subst fl_binade [where e = 0]) (simp_all add: round_ties_even_def powr_minus)

lemma fl_dedendum_1: "fl (fl (6 / 5)) = 5404319552844595 / 4503599627370496"
proof -
  have "fl (fl (6 / 5)) = fl (6 / 5)"
    by (intro fl_fl_nonneg) simp
  then show ?thesis
    by (simp only: fl_6_5)
qed

lemma fl_5e16_minus: "fl (50000000000000000 - 5404319552844595 / 4503599627370496) = 50000000000000000"
  by (subst fl_binade [where e = 55]) (simp_all add: round_ties_even_def)

text \<open>
  Claim C7 as stated fails on the doubles of the source: with \<open>10 ^ 17\<close> teeth and module 1 the
  pitch radius is \<open>5 \<sqdot> 10 ^ 16\<close>, where neighbouring doubles are 8 apart, so adding the addendum 1
  and subtracting the dedendum 1.2 both round back to the pitch radius:
  \<open>pitchCircleRadius = maxRadius = minRadius\<close>. The three radii do not depend on \<^verbatim>\<open>Math.cos\<close>,
  \<^verbatim>\<open>Math.sqrt\<close> and \<^verbatim>\<open>**\<close>; the statement takes the correctly rounded ones.
\<close>

theorem generateGearParams_double_not_strict:
  "validGearInput 100000000000000000 1 20 \<and>
   p_pitchCircleRadius (generateGearParams_double (\<lambda>x. fl (cos x)) (\<lambda>x. fl (sqrt x))
       (\<lambda>x y. fl (x powr y)) 100000000000000000 1 20) = 50000000000000000 \<and>
   p_maxRadius (generateGearParams_double (\<lambda>x. fl (cos x)) (\<lambda>x. fl (sqrt x))
       (\<lambda>x y. fl (x powr y)) 100000000000000000 1 20) = 50000000000000000 \<and>
   p_minRadius (generateGearParams_double (\<lambda>x. fl (cos x)) (\<lambda>x. fl (sqrt x))
       (\<lambda>x y. fl (x powr y)) 100000000000000000 1 20) = 50000000000000000 \<and>
   \<not> p_pitchCircleRadius (generateGearParams_double (\<lambda>x. fl (cos x)) (\<lambda>x. fl (sqrt x))
         (\<lambda>x y. fl (x powr y)) 100000000000000000 1 20)
       < p_maxRadius (generateGearParams_double (\<lambda>x. fl (cos x)) (\<lambda>x. fl (sqrt x))
         (\<lambda>x y. fl (x powr y)) 100000000000000000 1 20)"
  using validGearInput_1e17_1_20
  by (simp add: generateGearParams_double_def Let_def fl_1e17 fl_5e16 fl_5e16_plus_1
        fl_dedendum_1 fl_5e16_minus [simplified])

text \<open>
  Claim C10. For every module \<open>> 0\<close>, every number of teeth \<open>\<ge> 1\<close> and every pressure angle
  \<open>\<phi>\<close> with \<open>0 < \<phi> < \<pi>/2\<close>, the \<^verbatim>\<open>alpha\<close> that \<^verbatim>\<open>generateGearParams\<close> computes is \<open>tan \<phi> - \<phi>\<close>, the
  involute function of the pressure angle, whatever the module and the number of teeth.
\<close>

theorem generateGearParams_alpha:
  assumes "0 < modl" and "1 \<le> teeth" and "0 < degToRad deg" and "degToRad deg < pi / 2"
  shows "p_alpha (generateGearParams teeth modl deg) = tan (degToRad deg) - degToRad deg"
proof -
  define r where "r = modl * teeth / 2"
  define a where "a = degToRad deg"
  have r: "0 < r"
    using assms(1,2) by (simp add: r_def)
  have c: "0 < cos a"
    using assms(3,4) unfolding a_def by (intro cos_gt_zero_pi) simp_all
  have s: "0 < sin a"
    using assms(3,4) unfolding a_def by (intro sin_gt_zero) (simp_all add: pi_gt_zero)
  have "r\<^sup>2 - (r * cos a)\<^sup>2 = r\<^sup>2 * (1 - (cos a)\<^sup>2)"
    by (simp add: power_mult_distrib algebra_simps)
  also have "\<dots> = (r * sin a)\<^sup>2"
    by (simp add: sin_squared_eq power_mult_distrib)
  finally have "sqrt (r\<^sup>2 - (r * cos a)\<^sup>2) = r * sin a"
    using r s by simp
  then have "sqrt (r\<^sup>2 - (r * cos a)\<^sup>2) / (r * cos a) = tan a"
    using r c by (simp add: tan_def)
  then show ?thesis
    by (simp add: generateGearParams_def Let_def r_def a_def)
qed

theorem generateGearParams_alpha_witness:
  "(0::real) < 3 \<and> (1::real) \<le> 20 \<and> 0 < degToRad 20 \<and> degToRad 20 < pi / 2 \<and>
   p_alpha (generateGearParams 20 3 20) = tan (degToRad 20) - degToRad 20"
  using generateGearParams_alpha [of 3 20 20] by (simp add: degToRad_def)

subsection \<open>Shapes and their rotation\<close>

lemma fold_lineTo:
  "fold (\<lambda>q acc. lineTo acc (fst q) (snd q)) ps sh =
     sh\<lparr>curves := curves sh @ zip (currentPoint sh # ps) ps,
        currentPoint := last (currentPoint sh # ps)\<rparr>"
  by (induction ps arbitrary: sh) (simp_all add: lineTo_def)

lemma segment_end_points:
  "ps \<noteq> [] \<Longrightarrow>
   remdups_adj (concat (map (\<lambda>(v1, v2). [v1, v2]) (zip (c # ps) ps))) = remdups_adj (c # ps)"
proof (induction ps arbitrary: c)
  case Nil
  then show ?case by simp
next
  case (Cons p ps)
  show ?case
  proof (cases ps)
    case Nil
    then show ?thesis by simp
  next
    case (Cons q qs)
    with Cons.IH [of p]
    have ih: "remdups_adj (concat (map (\<lambda>(v1, v2). [v1, v2]) (zip (p # ps) ps)))
              = remdups_adj (p # ps)"
      by simp
    have "concat (map (\<lambda>(v1, v2). [v1, v2]) (zip (c # p # ps) (p # ps)))
          = c # p # concat (map (\<lambda>(v1, v2). [v1, v2]) (zip (p # ps) ps))"
      by simp
    moreover have "concat (map (\<lambda>(v1, v2). [v1, v2]) (zip (p # ps) ps))
          = p # q # concat (map (\<lambda>(v1, v2). [v1, v2]) (zip ps qs))"
      using Cons by simp
    ultimately show ?thesis
      using ih by (metis remdups_adj.simps(3))
  qed
qed

lemma getPoints_path:
  assumes "curves sh = []"
  shows "getPoints (fold (\<lambda>q acc. lineTo acc (fst q) (snd q)) ps (moveTo sh (fst p0) (snd p0)))
         = (if ps = [] then [] else remdups_adj (p0 # ps))"
  using assms by (simp add: fold_lineTo getPoints_def moveTo_def segment_end_points)

lemma getPoints_Shape_of_points:
  assumes "distinct_adj P" and "2 \<le> length P"
  shows "\<exists>sh. Shape_of_points P = Inr sh \<and> getPoints sh = P"
proof -
  obtain p0 ps where P: "P = p0 # ps"
    using assms(2) by (cases P) auto
  with assms(2) have ne: "ps \<noteq> []"
    by auto
  have "remdups_adj P = P"
    using assms(1) by (simp add: distinct_adj_altdef)
  then show ?thesis
    using ne by (simp add: P Shape_of_points_def setFromPoints_def getPoints_path Shape_empty_def)
qed

lemma js_rem_0:
  assumes "js_rem a (2 * pi) = 0"
  shows "cos a = 1" and "sin a = 0"
proof -
  define k :: int where "k = (if 0 \<le> a / (2 * pi) then \<lfloor>a / (2 * pi)\<rfloor> else \<lceil>a / (2 * pi)\<rceil>)"
  from assms have "a = (2 * pi) * of_int k"
    by (simp add: js_rem_def k_def)
  then show "cos a = 1" and "sin a = 0"
    by simp_all
qed

lemma rotateAround_back:
  "rotateAround (rotateAround v ORIGIN_VEC2 a) ORIGIN_VEC2 (- a) = v"
proof -
  obtain px py where v: "v = (px, py)" by (cases v)
  have 1: "(px * cos a - py * sin a) * cos a + (px * sin a + py * cos a) * sin a
           = px * ((sin a)\<^sup>2 + (cos a)\<^sup>2)"
    by algebra
  have 2: "(px * sin a + py * cos a) * cos a - (px * cos a - py * sin a) * sin a
           = py * ((sin a)\<^sup>2 + (cos a)\<^sup>2)"
    by algebra
  from 1 2 show ?thesis
    by (simp add: rotateAround_def ORIGIN_VEC2_def v Let_def)
qed

lemma rotateVec2Array_back:
  "rotateVec2Array (rotateVec2Array P a None) (- a) None = P"
  by (simp add: rotateVec2Array_def rotateAround_back o_def)

lemma rotateVec2Array_distinct_adj:
  assumes "distinct_adj P"
  shows "distinct_adj (rotateVec2Array P a None)"
proof -
  have "inj (\<lambda>vec. rotateAround vec ORIGIN_VEC2 a)"
    by (rule inj_on_inverseI [where g = "\<lambda>vec. rotateAround vec ORIGIN_VEC2 (- a)"])
       (simp add: rotateAround_back)
  then have "inj_on (\<lambda>vec. rotateAround vec ORIGIN_VEC2 a) (set P)"
    by (rule inj_on_subset) simp
  with assms show ?thesis
    by (simp add: rotateVec2Array_def distinct_adj_mapI)
qed

lemma rotateVec2Array_full_turns:
  assumes "js_rem a (2 * pi) = 0"
  shows "rotateVec2Array P a None = P"
  using js_rem_0 [OF assms]
  by (simp add: rotateVec2Array_def rotateAround_def ORIGIN_VEC2_def Let_def)

lemma length_rotateVec2Array: "length (rotateVec2Array P a orig) = length P"
  by (simp add: rotateVec2Array_def)

lemma distinct_adj_getPoints: "distinct_adj (getPoints sh)"
  by (simp add: getPoints_def)

lemma rotateShape_points:
  assumes "2 \<le> length (getPoints sh)"
  shows "\<exists>sh'. rotateShape sh a = Inr sh' \<and> getPoints sh' = rotateVec2Array (getPoints sh) a None"
proof (cases "js_rem a (2 * pi) = 0")
  case True
  then show ?thesis
    by (simp add: rotateShape_def rotateVec2Array_full_turns)
next
  case False
  have "distinct_adj (rotateVec2Array (getPoints sh) a None)"
    by (rule rotateVec2Array_distinct_adj) (rule distinct_adj_getPoints)
  moreover have "2 \<le> length (rotateVec2Array (getPoints sh) a None)"
    using assms by (simp add: length_rotateVec2Array)
  ultimately show ?thesis
    using False getPoints_Shape_of_points by (simp add: rotateShape_def)
qed

lemma rotate_ccw_quarter_turn: "rotate_ccw (pi / 2) (1, 0) = (0, 1)"
  by (simp add: rotate_ccw_def)

lemma vec2_length_rotate_ccw: "vec2_length (rotate_ccw a v) = vec2_length v"
proof -
  obtain px py where v: "v = (px, py)" by (cases v)
  have "(px * cos a - py * sin a) * (px * cos a - py * sin a)
        + (px * sin a + py * cos a) * (px * sin a + py * cos a)
        = (px * px + py * py) * ((sin a)\<^sup>2 + (cos a)\<^sup>2)"
    by algebra
  then show ?thesis
    by (simp add: vec2_length_def rotate_ccw_def v)
qed

lemma rotateAround_origin: "rotateAround v ORIGIN_VEC2 a = rotate_ccw a v"
  by (simp add: rotateAround_def rotate_ccw_def ORIGIN_VEC2_def Let_def)

lemma rotateVec2Array_rotate_ccw: "rotateVec2Array P a None = map (rotate_ccw a) P"
  by (simp add: rotateVec2Array_def rotateAround_origin)


lemma rotate_ccw_origin: "rotate_ccw a (0, 0) = (0, 0)"
  by (simp add: rotate_ccw_def)

lemma three_points:
  assumes "v1 \<in> set xs" and "v2 \<in> set xs" and "v3 \<in> set xs"
    and "v1 \<noteq> v2" and "v1 \<noteq> v3" and "v2 \<noteq> v3"
  shows "3 \<le> length (remdups_adj xs)"
proof -
  have "card {v1, v2, v3} = 3"
    using assms(4-6) by simp
  moreover have "{v1, v2, v3} \<subseteq> set (remdups_adj xs)"
    using assms(1-3) by simp
  then have "card {v1, v2, v3} \<le> card (set (remdups_adj xs))"
    by (intro card_mono) simp_all
  moreover have "card (set (remdups_adj xs)) \<le> length (remdups_adj xs)"
    by (rule card_length)
  ultimately show ?thesis by linarith
qed

lemma generateGearSegment_points:
  assumes "0 < b" and "b < m"
  shows "\<exists>sh. generateGearSegment pitchAngle b m minR alpha = Some (Inr sh) \<and>
           3 \<le> length (getPoints sh) \<and>
           (0, 0) \<in> set (getPoints sh) \<and>
           (\<exists>v \<in> set (getPoints sh). vec2_length v = b) \<and>
           (\<exists>v \<in> set (getPoints sh). vec2_length v = m)"
proof -
  have "0 < (case None of None \<Rightarrow> INVOLUTE_STEP | Some s \<Rightarrow> s)"
    by (simp add: INVOLUTE_STEP_def)
  from generateInvoluteCurve_returns [OF assms(1) this, of m] assms(2)
  obtain pts where curve: "generateInvoluteCurve b m None
        = Some (pts @ [involutePoint (sqrt (m ^ 2 / b ^ 2 - 1)) b])"
    and "pts \<noteq> []" and "hd pts = involutePoint 0 b"
    by blast
  then obtain tail where pts: "pts = (b, 0) # tail"
    by (cases pts) (auto simp: involutePoint_def)
  define tip where "tip = involutePoint (sqrt (m ^ 2 / b ^ 2 - 1)) b"
  have tip: "vec2_length tip = m"
    unfolding tip_def using assms by (intro involute_endpoint_length) simp_all
  have start: "vec2_length (b, 0) = b"
    using assms(1) by (simp add: vec2_length_def)
  have origin: "vec2_length (0, 0) = 0"
    by (simp add: vec2_length_def)
  define profile_tail where "profile_tail =
    tail @ [tip] @ rev (reflectVec2Array (pts @ [tip]) (pitchAngle / 4 + alpha))"
  define pt where "pt = polToCar minR (pitchAngle * 0.5 + 2 * alpha)"
  define pt' where "pt' = polToCar minR pitchAngle"
  define V where "V = (b, 0) # profile_tail @ [pt, pt', (0, 0)]"
  define segmentShape where "segmentShape =
    fold (\<lambda>q acc. lineTo acc (fst q) (snd q)) (profile_tail @ [pt, pt', (0, 0)])
      (moveTo (moveTo Shape_empty b 0) b 0)"
  have seg: "generateGearSegment pitchAngle b m minR alpha = Some (rotateShape segmentShape (-1 * alpha))"
    unfolding generateGearSegment_def curve
    by (simp add: Let_def setFromPoints_def pts profile_tail_def segmentShape_def pt_def pt'_def
          tip_def)
  have points: "getPoints segmentShape = remdups_adj V"
    unfolding segmentShape_def V_def
    using getPoints_path [of "moveTo Shape_empty b 0" "profile_tail @ [pt, pt', (0, 0)]" "(b, 0)"]
    by (simp add: moveTo_def Shape_empty_def)
  have mem: "(b, 0) \<in> set V" "tip \<in> set V" "(0, 0) \<in> set V"
    by (simp_all add: V_def profile_tail_def)
  have "(b, 0) \<noteq> tip" "(b, 0) \<noteq> (0::real, 0::real)" "tip \<noteq> (0, 0)"
    using tip start origin assms by auto
  with mem have three: "3 \<le> length (getPoints segmentShape)"
    unfolding points by (intro three_points [of "(b, 0)" V tip "(0, 0)"])
  then have "2 \<le> length (getPoints segmentShape)"
    by simp
  from rotateShape_points [OF this, of "-1 * alpha"]
  obtain sh where sh: "rotateShape segmentShape (-1 * alpha) = Inr sh"
    and shp: "getPoints sh = map (rotate_ccw (-1 * alpha)) (remdups_adj V)"
    unfolding points rotateVec2Array_rotate_ccw by blast
  have "3 \<le> length (getPoints sh)"
    using three by (simp add: shp points)
  moreover have "rotate_ccw (-1 * alpha) (0, 0) \<in> set (getPoints sh)"
    unfolding shp using mem(3) by simp
  then have "(0, 0) \<in> set (getPoints sh)"
    by (simp add: rotate_ccw_origin)
  moreover have "rotate_ccw (-1 * alpha) (b, 0) \<in> set (getPoints sh)"
    unfolding shp using mem(1) by simp
  then have "\<exists>v \<in> set (getPoints sh). vec2_length v = b"
    using start by (metis vec2_length_rotate_ccw)
  moreover have "rotate_ccw (-1 * alpha) tip \<in> set (getPoints sh)"
    unfolding shp using mem(2) by simp
  then have "\<exists>v \<in> set (getPoints sh). vec2_length v = m"
    using tip by (metis vec2_length_rotate_ccw)
  ultimately show ?thesis
    using seg sh by simp
qed

lemma segments_for_returns:
  assumes "2 \<le> length (getPoints segment)" and "p_teeth params = real n"
  shows "n - i = k \<Longrightarrow>
    \<exists>rest. segments_for segment params i acc = Inr (acc @ rest) \<and> length rest = k \<and>
      (\<forall>j<k. getPoints (rest ! j)
          = rotateVec2Array (getPoints segment) (real (i + j) * p_pitchAngle params) None)"
proof (induction k arbitrary: i acc)
  case 0
  then have "\<not> real i < p_teeth params"
    using assms(2) by simp
  then show ?case
    by (subst segments_for.simps) simp
next
  case (Suc k)
  then have less: "real i < p_teeth params" and k: "n - Suc i = k"
    using assms(2) by simp_all
  from rotateShape_points [OF assms(1), of "real i * p_pitchAngle params"]
  obtain sh where sh: "rotateShape segment (real i * p_pitchAngle params) = Inr sh"
    and pts: "getPoints sh = rotateVec2Array (getPoints segment) (real i * p_pitchAngle params) None"
    by blast
  from Suc.IH [OF k, of "acc @ [sh]"]
  obtain rest where r: "segments_for segment params (Suc i) (acc @ [sh]) = Inr ((acc @ [sh]) @ rest)"
    and len: "length rest = k"
    and each: "\<forall>j<k. getPoints (rest ! j)
          = rotateVec2Array (getPoints segment) (real (Suc i + j) * p_pitchAngle params) None"
    by blast
  have "segments_for segment params i acc = Inr (acc @ (sh # rest))"
    using less sh r by (subst segments_for.simps) simp
  moreover have "length (sh # rest) = Suc k"
    using len by simp
  moreover have "\<forall>j<Suc k. getPoints ((sh # rest) ! j)
          = rotateVec2Array (getPoints segment) (real (i + j) * p_pitchAngle params) None"
  proof (intro allI impI)
    fix j assume "j < Suc k"
    show "getPoints ((sh # rest) ! j)
          = rotateVec2Array (getPoints segment) (real (i + j) * p_pitchAngle params) None"
    proof (cases j)
      case 0
      then show ?thesis using pts by simp
    next
      case (Suc j')
      with \<open>j < Suc k\<close> each show ?thesis by simp
    qed
  qed
  ultimately show ?case by blast
qed

lemma validGearInput_nat:
  assumes "validGearInput teeth modl deg"
  obtains n where "teeth = real n" and "0 < n"
proof -
  from assms have i: "of_int \<lfloor>teeth\<rfloor> = teeth" and "1 \<le> teeth"
    unfolding validGearInput_def by blast+
  then have pos: "0 < \<lfloor>teeth\<rfloor>" by linarith
  then have "real (nat \<lfloor>teeth\<rfloor>) = of_int \<lfloor>teeth\<rfloor>"
    by simp
  also note i
  finally have "teeth = real (nat \<lfloor>teeth\<rfloor>)"
    by (rule sym)
  moreover have "0 < nat \<lfloor>teeth\<rfloor>"
    using pos by simp
  ultimately show ?thesis by (rule that)
qed


lemma generateGearShapeFromParams_returns:
  assumes "validGearInput teeth modl deg"
  shows "\<exists>segment polys.
      generateGearShapeFromParams (generateGearParams teeth modl deg) = Some (Inr polys) \<and>
      real (length polys) = teeth \<and>
      (\<forall>j<length polys. getPoints (polys ! j)
          = map (rotate_ccw (real j * p_pitchAngle (generateGearParams teeth modl deg)))
              (getPoints segment)) \<and>
      3 \<le> length (getPoints segment) \<and>
      (0, 0) \<in> set (getPoints segment) \<and>
      (\<exists>v \<in> set (getPoints segment).
          vec2_length v = p_baseCircleRadius (generateGearParams teeth modl deg)) \<and>
      (\<exists>v \<in> set (getPoints segment).
          vec2_length v = p_maxRadius (generateGearParams teeth modl deg))"
proof -
  let ?params = "generateGearParams teeth modl deg"
  from assms obtain n where n: "teeth = real n" "0 < n"
    by (rule validGearInput_nat)
  from assms have v: "0 < teeth" "0 < modl" "0 < degToRad deg" "degToRad deg < pi / 2"
    by (simp_all add: validGearInput_def)
  have "0 < p_baseCircleRadius ?params" and "p_baseCircleRadius ?params < p_maxRadius ?params"
    using pitch_base_max [OF v] by simp_all
  from generateGearSegment_points [OF this]
  obtain segment where seg: "generateGearSegment (p_pitchAngle ?params) (p_baseCircleRadius ?params)
        (p_maxRadius ?params) (p_minRadius ?params) (p_alpha ?params) = Some (Inr segment)"
    and three: "3 \<le> length (getPoints segment)"
    and content: "(0, 0) \<in> set (getPoints segment)"
      "\<exists>v \<in> set (getPoints segment). vec2_length v = p_baseCircleRadius ?params"
      "\<exists>v \<in> set (getPoints segment). vec2_length v = p_maxRadius ?params"
    by blast
  have two: "2 \<le> length (getPoints segment)"
    using three by simp
  have "p_teeth ?params = real n"
    using n(1) by (simp add: generateGearParams_def Let_def)
  from segments_for_returns [OF two this, of 0 n "[]"]
  obtain polys where "segments_for segment ?params 0 [] = Inr polys" and "length polys = n"
    and "\<forall>j<n. getPoints (polys ! j)
          = map (rotate_ccw (real j * p_pitchAngle ?params)) (getPoints segment)"
    unfolding rotateVec2Array_rotate_ccw by auto
  with three content show ?thesis
    using seg n(1) by (auto simp: generateGearShapeFromParams_def)
qed



subsection \<open>The constructor and \<^verbatim>\<open>addGear\<close>\<close>

lemma pressureAngleDeg_generateGearParams [simp]:
  "p_pressureAngleDeg (generateGearParams teeth modl deg) = deg"
  by (simp add: generateGearParams_def Let_def)

lemma createGeometry_returns:
  assumes "validGearInput teeth modl deg"
  shows "createGeometry (generateGearParams teeth modl deg)
           = Some (Inr \<lparr>mesh_geometry = geometry_of (generateGearParams teeth modl deg),
                         rotation_z = 0, position_x = 0, position_y = 0\<rparr>)"
proof -
  from generateGearShapeFromParams_returns [OF assms]
  obtain polys where "generateGearShapeFromParams (generateGearParams teeth modl deg) = Some (Inr polys)"
    by blast
  then show ?thesis
    by (simp add: createGeometry_def geometry_of_def)
qed

lemma rotation_last: "rotation (xs @ [g]) (length xs) = rotation_z (g_mesh g)"
  by (simp add: rotation_def)

lemma rotation_older: "p < length xs \<Longrightarrow> rotation (xs @ [g]) p = rotation xs p"
  by (simp add: rotation_def nth_append)

lemma set_rotation_last:
  "set_rotation (xs @ [g]) (length xs) r = xs @ [g\<lparr>g_mesh := (g_mesh g)\<lparr>rotation_z := r\<rparr>\<rparr>]"
  by (simp add: set_rotation_def)

lemma setPosition_last:
  "setPosition (xs @ [g]) (length xs) px py
   = xs @ [g\<lparr>g_x := px, g_y := py, g_mesh := (g_mesh g)\<lparr>position_x := px, position_y := py\<rparr>\<rparr>]"
  by (simp add: setPosition_def)

lemma calculateRatio_last:
  assumes "case g_pinion g of None \<Rightarrow> True | Some p \<Rightarrow> p < length xs"
  shows "calculateRatio (xs @ [g]) (length xs)
   = xs @ [g\<lparr>g_ratio := (case g_pinion g of None \<Rightarrow> 1 | Some p \<Rightarrow> g_teeth (xs ! p) / g_teeth g),
              g_rotationSpeed := (case g_pinion g of None \<Rightarrow> 1
                 | Some p \<Rightarrow> -1 * g_rotationSpeed (xs ! p) * (g_teeth (xs ! p) / g_teeth g))\<rparr>]"
  using assms by (cases "g_pinion g") (simp_all add: calculateRatio_def nth_append Let_def)

lemma positionGear_last:
  assumes "g_pinion g = Some p" and "p < length xs"
  shows "positionGear (xs @ [g]) (length xs)
   = xs @ [g\<lparr>g_x := g_x (xs ! p) + (g_mod g * g_teeth g + g_mod g * g_teeth (xs ! p)) / 2 * cos (g_angle g),
              g_y := g_y (xs ! p) + (g_mod g * g_teeth g + g_mod g * g_teeth (xs ! p)) / 2 * sin (g_angle g),
              g_mesh := (g_mesh g)\<lparr>
                position_x := g_x (xs ! p) + (g_mod g * g_teeth g + g_mod g * g_teeth (xs ! p)) / 2 * cos (g_angle g),
                position_y := g_y (xs ! p) + (g_mod g * g_teeth g + g_mod g * g_teeth (xs ! p)) / 2 * sin (g_angle g)\<rparr>\<rparr>]"
  using assms by (simp add: positionGear_def nth_append Let_def setPosition_last)

lemma rotateGear_last:
  assumes "g_pinion g = Some p" and "p < length xs"
  shows "rotateGear (xs @ [g]) (length xs)
   = xs @ [g\<lparr>g_mesh := (g_mesh g)\<lparr>rotation_z :=
        rotation_z (g_mesh g) + (pi + g_angle g) + (g_angle g - rotation xs p) * g_ratio g\<rparr>\<rparr>]"
  using assms
  by (simp add: rotateGear_def Let_def set_rotation_last rotation_last rotation_older)

lemma Gear_new_returns:
  assumes "validGearInput teeth (case mod_arg of None \<Rightarrow> 3 | Some m \<Rightarrow> m)
             (case deg_arg of None \<Rightarrow> 20 | Some d \<Rightarrow> d)"
    and "case pinion of None \<Rightarrow> True | Some p \<Rightarrow> p < length s"
  shows "Gear_new s teeth mod_arg deg_arg pinion = Some (Inr (s @
      [\<lparr>g_teeth = teeth,
        g_mod = (case mod_arg of None \<Rightarrow> 3 | Some m \<Rightarrow> m),
        g_parameters = generateGearParams teeth (case mod_arg of None \<Rightarrow> 3 | Some m \<Rightarrow> m)
             (case deg_arg of None \<Rightarrow> 20 | Some d \<Rightarrow> d),
        g_mesh = \<lparr>mesh_geometry = geometry_of (generateGearParams teeth
                       (case mod_arg of None \<Rightarrow> 3 | Some m \<Rightarrow> m)
                       (case deg_arg of None \<Rightarrow> 20 | Some d \<Rightarrow> d)),
                  rotation_z = 0, position_x = 0, position_y = 0\<rparr>,
        g_angle = 0, g_x = 0, g_y = 0, g_childGears = {}, g_pinion = pinion,
        g_ratio = (case pinion of None \<Rightarrow> 1 | Some p \<Rightarrow> g_teeth (s ! p) / teeth),
        g_rotationSpeed = (case pinion of None \<Rightarrow> 1
           | Some p \<Rightarrow> -1 * g_rotationSpeed (s ! p) * (g_teeth (s ! p) / teeth))\<rparr>], length s))"
  using assms(2) createGeometry_returns [OF assms(1)]
  by (cases pinion) (simp_all add: Gear_new_def Let_def calculateRatio_last)

lemma addGear_returns:
  assumes "this < length s"
    and "validGearInput teeth (g_mod (s ! this)) (p_pressureAngleDeg (g_parameters (s ! this)))"
  shows "addGear s this teeth ang = Some (Inr
     (s[this := (s ! this)\<lparr>g_childGears := insert (length s) (g_childGears (s ! this))\<rparr>] @
      [\<lparr>g_teeth = teeth,
        g_mod = g_mod (s ! this),
        g_parameters = generateGearParams teeth (g_mod (s ! this))
             (p_pressureAngleDeg (g_parameters (s ! this))),
        g_mesh = \<lparr>mesh_geometry = geometry_of (generateGearParams teeth (g_mod (s ! this))
             (p_pressureAngleDeg (g_parameters (s ! this)))),
           rotation_z = 0 + (pi + ang) + (ang - rotation s this) * (g_teeth (s ! this) / teeth),
           position_x = g_x (s ! this)
              + (g_mod (s ! this) * teeth + g_mod (s ! this) * g_teeth (s ! this)) / 2 * cos ang,
           position_y = g_y (s ! this)
              + (g_mod (s ! this) * teeth + g_mod (s ! this) * g_teeth (s ! this)) / 2 * sin ang\<rparr>,
        g_angle = ang,
        g_x = g_x (s ! this)
              + (g_mod (s ! this) * teeth + g_mod (s ! this) * g_teeth (s ! this)) / 2 * cos ang,
        g_y = g_y (s ! this)
              + (g_mod (s ! this) * teeth + g_mod (s ! this) * g_teeth (s ! this)) / 2 * sin ang,
        g_childGears = {}, g_pinion = Some this,
        g_ratio = g_teeth (s ! this) / teeth,
        g_rotationSpeed = -1 * g_rotationSpeed (s ! this) * (g_teeth (s ! this) / teeth)\<rparr>],
      length s))"
proof -
  define s' where "s' = s[this := (s ! this)\<lparr>g_childGears := insert (length s) (g_childGears (s ! this))\<rparr>]"
  have len: "length s' = length s" and this': "this < length s'"
    using assms(1) by (simp_all add: s'_def)
  have at: "s' ! this = (s ! this)\<lparr>g_childGears := insert (length s) (g_childGears (s ! this))\<rparr>"
    using assms(1) by (simp add: s'_def)
  have rot: "rotation s' this = rotation s this"
    by (simp add: rotation_def at)
  define g0 where "g0 = \<lparr>g_teeth = teeth,
        g_mod = g_mod (s ! this),
        g_parameters = generateGearParams teeth (g_mod (s ! this))
             (p_pressureAngleDeg (g_parameters (s ! this))),
        g_mesh = \<lparr>mesh_geometry = geometry_of (generateGearParams teeth (g_mod (s ! this))
             (p_pressureAngleDeg (g_parameters (s ! this)))),
             rotation_z = 0, position_x = 0, position_y = 0\<rparr>,
        g_angle = 0, g_x = 0, g_y = 0, g_childGears = {}, g_pinion = Some this,
        g_ratio = g_teeth (s ! this) / teeth,
        g_rotationSpeed = -1 * g_rotationSpeed (s ! this) * (g_teeth (s ! this) / teeth)\<rparr>"
  have new: "Gear_new s teeth (Some (g_mod (s ! this)))
      (Some (p_pressureAngleDeg (g_parameters (s ! this)))) (Some this) = Some (Inr (s @ [g0], length s))"
    using Gear_new_returns [where teeth = teeth and mod_arg = "Some (g_mod (s ! this))"
      and deg_arg = "Some (p_pressureAngleDeg (g_parameters (s ! this)))"
      and pinion = "Some this" and s = s] assms
    by (simp add: g0_def)
  define g3 where "g3 = g0\<lparr>g_angle := ang\<rparr>"
  define s4 where "s4 = positionGear (s' @ [g3]) (length s')"
  define s5 where "s5 = rotateGear s4 (length s')"
  have s2: "(s @ [g0])[this := ((s @ [g0]) ! this)\<lparr>g_childGears :=
        insert (length s) (g_childGears ((s @ [g0]) ! this))\<rparr>] = s' @ [g0]"
    using assms(1) by (simp add: s'_def nth_append list_update_append)
  have s3: "(s' @ [g0])[length s := ((s' @ [g0]) ! length s)\<lparr>g_angle := ang\<rparr>] = s' @ [g3]"
    unfolding len [symmetric] by (simp add: g3_def)
  have pin: "g_pinion g3 = Some this"
    by (simp add: g3_def g0_def)
  have "addGear s this teeth ang = Some (Inr (s5, length s))"
    unfolding addGear_def new
    by (simp add: Let_def s2 s3 s5_def s4_def len)
  moreover have "s5 = s' @
      [\<lparr>g_teeth = teeth,
        g_mod = g_mod (s ! this),
        g_parameters = generateGearParams teeth (g_mod (s ! this))
             (p_pressureAngleDeg (g_parameters (s ! this))),
        g_mesh = \<lparr>mesh_geometry = geometry_of (generateGearParams teeth (g_mod (s ! this))
             (p_pressureAngleDeg (g_parameters (s ! this)))),
           rotation_z = 0 + (pi + ang) + (ang - rotation s this) * (g_teeth (s ! this) / teeth),
           position_x = g_x (s ! this)
              + (g_mod (s ! this) * teeth + g_mod (s ! this) * g_teeth (s ! this)) / 2 * cos ang,
           position_y = g_y (s ! this)
              + (g_mod (s ! this) * teeth + g_mod (s ! this) * g_teeth (s ! this)) / 2 * sin ang\<rparr>,
        g_angle = ang,
        g_x = g_x (s ! this)
              + (g_mod (s ! this) * teeth + g_mod (s ! this) * g_teeth (s ! this)) / 2 * cos ang,
        g_y = g_y (s ! this)
              + (g_mod (s ! this) * teeth + g_mod (s ! this) * g_teeth (s ! this)) / 2 * sin ang,
        g_childGears = {}, g_pinion = Some this,
        g_ratio = g_teeth (s ! this) / teeth,
        g_rotationSpeed = -1 * g_rotationSpeed (s ! this) * (g_teeth (s ! this) / teeth)\<rparr>]"
    unfolding s5_def s4_def positionGear_last [OF pin this']
    by (subst rotateGear_last [where p = this])
       (simp_all add: this' at rot g3_def g0_def)
  ultimately show ?thesis
    unfolding s'_def by simp
qed

lemma Gear_new_fields:
  assumes "validGearInput teeth (case mod_arg of None \<Rightarrow> 3 | Some m \<Rightarrow> m)
             (case deg_arg of None \<Rightarrow> 20 | Some d \<Rightarrow> d)"
    and "case pinion of None \<Rightarrow> True | Some p \<Rightarrow> p < length s"
  shows "\<exists>s'. Gear_new s teeth mod_arg deg_arg pinion = Some (Inr (s', length s))
    \<and> length s' = Suc (length s)
    \<and> (\<forall>h<length s. s' ! h = s ! h)
    \<and> g_teeth (s' ! length s) = teeth
    \<and> g_mod (s' ! length s) = (case mod_arg of None \<Rightarrow> 3 | Some m \<Rightarrow> m)
    \<and> p_pressureAngleDeg (g_parameters (s' ! length s)) = (case deg_arg of None \<Rightarrow> 20 | Some d \<Rightarrow> d)
    \<and> g_pinion (s' ! length s) = pinion
    \<and> g_childGears (s' ! length s) = {}
    \<and> g_angle (s' ! length s) = 0
    \<and> g_x (s' ! length s) = 0 \<and> g_y (s' ! length s) = 0
    \<and> rotation s' (length s) = 0
    \<and> g_ratio (s' ! length s) = (case pinion of None \<Rightarrow> 1 | Some p \<Rightarrow> g_teeth (s ! p) / teeth)
    \<and> g_rotationSpeed (s' ! length s) = (case pinion of None \<Rightarrow> 1
           | Some p \<Rightarrow> -1 * g_rotationSpeed (s ! p) * (g_teeth (s ! p) / teeth))"
  unfolding Gear_new_returns [OF assms]
  by (simp add: nth_append rotation_def generateGearParams_def Let_def)

lemma addGear_fields:
  assumes "this < length s"
    and "validGearInput teeth (g_mod (s ! this)) (p_pressureAngleDeg (g_parameters (s ! this)))"
  shows "\<exists>s'. addGear s this teeth ang = Some (Inr (s', length s))
    \<and> length s' = Suc (length s)
    \<and> (\<forall>h<length s. h \<noteq> this \<longrightarrow> s' ! h = s ! h)
    \<and> s' ! this = (s ! this)\<lparr>g_childGears := insert (length s) (g_childGears (s ! this))\<rparr>
    \<and> g_teeth (s' ! length s) = teeth
    \<and> g_mod (s' ! length s) = g_mod (s ! this)
    \<and> p_pressureAngleDeg (g_parameters (s' ! length s)) = p_pressureAngleDeg (g_parameters (s ! this))
    \<and> g_pinion (s' ! length s) = Some this
    \<and> g_childGears (s' ! length s) = {}
    \<and> g_angle (s' ! length s) = ang
    \<and> g_x (s' ! length s) = g_x (s ! this)
           + (g_mod (s ! this) * teeth + g_mod (s ! this) * g_teeth (s ! this)) / 2 * cos ang
    \<and> g_y (s' ! length s) = g_y (s ! this)
           + (g_mod (s ! this) * teeth + g_mod (s ! this) * g_teeth (s ! this)) / 2 * sin ang
    \<and> rotation s' (length s) = pi + ang + (ang - rotation s this) * (g_teeth (s ! this) / teeth)
    \<and> g_ratio (s' ! length s) = g_teeth (s ! this) / teeth
    \<and> g_rotationSpeed (s' ! length s) = -1 * g_rotationSpeed (s ! this) * (g_teeth (s ! this) / teeth)"
  unfolding addGear_returns [OF assms] using assms(1)
  by (simp add: nth_append rotation_def generateGearParams_def Let_def)

lemma validGearInput_10_3_20: "validGearInput 10 3 20"
  by (simp add: validGearInput_def degToRad_def)

lemma validGearInput_5_3_20: "validGearInput 5 3 20"
  by (simp add: validGearInput_def degToRad_def)

lemma root_gear:
  "\<exists>s1. Gear_new [] 20 None None None = Some (Inr (s1, 0)) \<and> length s1 = 1 \<and>
     g_teeth (s1 ! 0) = 20 \<and> g_mod (s1 ! 0) = 3 \<and>
     p_pressureAngleDeg (g_parameters (s1 ! 0)) = 20 \<and>
     g_x (s1 ! 0) = 0 \<and> g_y (s1 ! 0) = 0 \<and> rotation s1 0 = 0 \<and>
     g_rotationSpeed (s1 ! 0) = 1"
  using Gear_new_fields [where s = "[]" and teeth = 20 and mod_arg = None and deg_arg = None
      and pinion = None] validGearInput_20_3_20
  by simp blast

lemma child_gear:
  assumes "this < length s" and "g_mod (s ! this) = 3"
    and "p_pressureAngleDeg (g_parameters (s ! this)) = 20"
    and "validGearInput teeth 3 20"
  shows "\<exists>s'. addGear s this teeth ang = Some (Inr (s', length s)) \<and> length s' = Suc (length s) \<and>
     g_teeth (s' ! length s) = teeth \<and> g_mod (s' ! length s) = 3 \<and>
     p_pressureAngleDeg (g_parameters (s' ! length s)) = 20 \<and>
     g_x (s' ! length s) = g_x (s ! this) + (3 * teeth + 3 * g_teeth (s ! this)) / 2 * cos ang \<and>
     g_y (s' ! length s) = g_y (s ! this) + (3 * teeth + 3 * g_teeth (s ! this)) / 2 * sin ang \<and>
     g_ratio (s' ! length s) = g_teeth (s ! this) / teeth \<and>
     g_rotationSpeed (s' ! length s) = - (g_rotationSpeed (s ! this) * (g_teeth (s ! this) / teeth))"
proof -
  have "validGearInput teeth (g_mod (s ! this)) (p_pressureAngleDeg (g_parameters (s ! this)))"
    using assms(2-4) by simp
  from addGear_fields [OF assms(1) this, of ang] show ?thesis
    using assms(2,3) by simp blast
qed

lemma ratio_chain:
  "\<exists>s1 s2 s3. Gear_new [] 20 None None None = Some (Inr (s1, 0)) \<and>
      addGear s1 0 10 a1 = Some (Inr (s2, 1)) \<and>
      addGear s2 1 5 a2 = Some (Inr (s3, 2)) \<and>
      g_rotationSpeed (s1 ! 0) = 1 \<and>
      g_rotationSpeed (s2 ! 1) = -2 \<and>
      g_rotationSpeed (s3 ! 2) = 4"
proof -
  from root_gear obtain s1 where 1: "Gear_new [] 20 None None None = Some (Inr (s1, 0))"
    and l1: "length s1 = 1" and t1: "g_teeth (s1 ! 0) = 20" and m1: "g_mod (s1 ! 0) = 3"
    and d1: "p_pressureAngleDeg (g_parameters (s1 ! 0)) = 20"
    and v1: "g_rotationSpeed (s1 ! 0) = 1"
    by blast
  have "0 < length s1"
    using l1 by simp
  from child_gear [OF this m1 d1 validGearInput_10_3_20, of a1]
  obtain s2 where 2: "addGear s1 0 10 a1 = Some (Inr (s2, 1))"
    and l2: "length s2 = 2" and t2: "g_teeth (s2 ! 1) = 10" and m2: "g_mod (s2 ! 1) = 3"
    and d2: "p_pressureAngleDeg (g_parameters (s2 ! 1)) = 20"
    and v2: "g_rotationSpeed (s2 ! 1) = -2"
    unfolding l1 t1 v1 by auto
  have "1 < length s2"
    using l2 by simp
  from child_gear [OF this m2 d2 validGearInput_5_3_20, of a2]
  obtain s3 where 3: "addGear s2 1 5 a2 = Some (Inr (s3, 2))"
    and v3: "g_rotationSpeed (s3 ! 2) = 4"
    unfolding l2 t2 v2 by auto
  from 1 2 3 v1 v2 v3 show ?thesis
    by blast
qed

text \<open>
  Claim C1, as the code has it. Build the tree of the claim with the constructor and \<^verbatim>\<open>addGear\<close>:
  a root with 20 teeth, a middle gear with 10 teeth on the root, a leaf with 5 teeth on the
  middle gear, at any two angles. \<^verbatim>\<open>calculateRatio\<close> divides the teeth of the pinion by the
  gear's own, so the speed of the leaf is the speed 1 of the root scaled by
  \<open>(-20/10) \<sqdot> (-10/5) = 4\<close>.
\<close>

theorem addGear_ratio_chain:
  "\<exists>s1 rootGear s2 midGear s3 leafGear.
      Gear_new [] 20 None None None = Some (Inr (s1, rootGear)) \<and>
      addGear s1 rootGear 10 a1 = Some (Inr (s2, midGear)) \<and>
      addGear s2 midGear 5 a2 = Some (Inr (s3, leafGear)) \<and>
      g_rotationSpeed (s1 ! rootGear) = 1 \<and>
      g_rotationSpeed (s3 ! leafGear) = 1 * ((- 20 / 10) * (- 10 / 5)) \<and>
      g_rotationSpeed (s3 ! leafGear) = 4"
proof -
  from ratio_chain [of a1 a2] obtain s1 s2 s3 where
    "Gear_new [] 20 None None None = Some (Inr (s1, 0))"
    "addGear s1 0 10 a1 = Some (Inr (s2, 1))"
    "addGear s2 1 5 a2 = Some (Inr (s3, 2))"
    "g_rotationSpeed (s1 ! 0) = 1"
    "g_rotationSpeed (s3 ! 2) = 4"
    by blast
  moreover have "(4::real) = 1 * ((- 20 / 10) * (- 10 / 5))"
    by simp
  ultimately show ?thesis
    by metis
qed

text \<open>
  Claim C1 as stated fails: in that tree the speed of the leaf is 4, not \<open>0.25\<close>.
\<close>

theorem addGear_ratio_chain_not_quarter:
  "(case Gear_new [] 20 None None None of
      Some (Inr (s1, rootGear)) \<Rightarrow>
        (case addGear s1 rootGear 10 0 of
           Some (Inr (s2, midGear)) \<Rightarrow>
             (case addGear s2 midGear 5 0 of
                Some (Inr (s3, leafGear)) \<Rightarrow>
                  g_rotationSpeed (s3 ! leafGear) = 4 \<and> g_rotationSpeed (s3 ! leafGear) \<noteq> 0.25
              | _ \<Rightarrow> False)
         | _ \<Rightarrow> False)
    | _ \<Rightarrow> False)"
proof -
  from ratio_chain [of 0 0] obtain s1 s2 s3 where
    "Gear_new [] 20 None None None = Some (Inr (s1, 0))"
    "addGear s1 0 10 0 = Some (Inr (s2, 1))"
    "addGear s2 1 5 0 = Some (Inr (s3, 2))"
    "g_rotationSpeed (s3 ! 2) = 4"
    by blast
  then show ?thesis by simp
qed

lemma rotateGear_rotation:
  assumes "child < length s" and "g_pinion (s ! child) = Some p" and "p \<noteq> child"
  shows "rotation (rotateGear s child) child
         = rotation s child + (pi + g_angle (s ! child))
           + (g_angle (s ! child) - rotation s p) * g_ratio (s ! child)"
  using assms by (simp add: rotateGear_def Let_def set_rotation_def rotation_def)

text \<open>
  Claim C5. A child attached by \<^verbatim>\<open>addGear(teeth, angle)\<close> to a pinion has \<open>ratio\<close> the pinion's teeth
  over its own, and ends with the rotation \<open>\<pi> + angle + (angle - pinion.rotation) \<sqdot> ratio\<close> (a new
  gear starts at rotation 0; the pinion's rotation is not changed). This is what \<^verbatim>\<open>rotateGear\<close>
  does to a gear with a pinion: it adds \<open>\<pi> + angle\<close> and then \<open>(angle - pinion.rotation) \<sqdot> ratio\<close>.
\<close>

theorem addGear_phase_lock:
  "(this < length s \<and>
    validGearInput teeth (g_mod (s ! this)) (p_pressureAngleDeg (g_parameters (s ! this))) \<longrightarrow>
      (\<exists>s' child. addGear s this teeth ang = Some (Inr (s', child)) \<and>
           g_pinion (s' ! child) = Some this \<and>
           g_ratio (s' ! child) = g_teeth (s ! this) / teeth \<and>
           rotation s' this = rotation s this \<and>
           rotation s' child = pi + ang + (ang - rotation s this) * g_ratio (s' ! child))) \<and>
   (child < length s \<and> g_pinion (s ! child) = Some p \<and> p \<noteq> child \<longrightarrow>
      rotation (rotateGear s child) child
        = rotation s child + (pi + g_angle (s ! child))
          + (g_angle (s ! child) - rotation s p) * g_ratio (s ! child))"
proof (intro conjI impI)
  assume "this < length s \<and>
    validGearInput teeth (g_mod (s ! this)) (p_pressureAngleDeg (g_parameters (s ! this)))"
  then have lt: "this < length s"
    and v: "validGearInput teeth (g_mod (s ! this)) (p_pressureAngleDeg (g_parameters (s ! this)))"
    by simp_all
  from addGear_fields [OF lt v, of ang] obtain s' where
    r: "addGear s this teeth ang = Some (Inr (s', length s))"
    and p: "g_pinion (s' ! length s) = Some this"
    and q: "g_ratio (s' ! length s) = g_teeth (s ! this) / teeth"
    and rot: "rotation s' (length s) = pi + ang + (ang - rotation s this) * (g_teeth (s ! this) / teeth)"
    and this': "s' ! this = (s ! this)\<lparr>g_childGears := insert (length s) (g_childGears (s ! this))\<rparr>"
    by blast
  have "rotation s' this = rotation s this"
    by (simp add: rotation_def this')
  with r p q rot show "\<exists>s' child. addGear s this teeth ang = Some (Inr (s', child)) \<and>
           g_pinion (s' ! child) = Some this \<and>
           g_ratio (s' ! child) = g_teeth (s ! this) / teeth \<and>
           rotation s' this = rotation s this \<and>
           rotation s' child = pi + ang + (ang - rotation s this) * g_ratio (s' ! child)"
    by simp
next
  assume "child < length s \<and> g_pinion (s ! child) = Some p \<and> p \<noteq> child"
  then show "rotation (rotateGear s child) child
        = rotation s child + (pi + g_angle (s ! child))
          + (g_angle (s ! child) - rotation s p) * g_ratio (s ! child)"
    by (simp add: rotateGear_rotation)
qed

theorem addGear_phase_lock_witness:
  "(case Gear_new [] 20 None None None of
      Some (Inr (s1, rootGear)) \<Rightarrow>
        (case addGear s1 rootGear 10 1 of
           Some (Inr (s2, child)) \<Rightarrow>
             rootGear < length s1 \<and>
             validGearInput 10 (g_mod (s1 ! rootGear)) (p_pressureAngleDeg (g_parameters (s1 ! rootGear))) \<and>
             g_pinion (s2 ! child) = Some rootGear \<and>
             g_ratio (s2 ! child) = g_teeth (s1 ! rootGear) / 10 \<and>
             rotation s2 rootGear = rotation s1 rootGear \<and>
             rotation s2 child = pi + 1 + (1 - rotation s1 rootGear) * g_ratio (s2 ! child) \<and>
             child < length s2 \<and> rootGear \<noteq> child \<and>
             rotation (rotateGear s2 child) child
               = rotation s2 child + (pi + g_angle (s2 ! child))
                 + (g_angle (s2 ! child) - rotation s2 rootGear) * g_ratio (s2 ! child)
         | _ \<Rightarrow> False)
    | _ \<Rightarrow> False)"
proof -
  from root_gear obtain s1 where 1: "Gear_new [] 20 None None None = Some (Inr (s1, 0))"
    and l1: "length s1 = 1" and m1: "g_mod (s1 ! 0) = 3"
    and d1: "p_pressureAngleDeg (g_parameters (s1 ! 0)) = 20"
    by blast
  have a: "0 < length s1"
    using l1 by simp
  have b: "validGearInput 10 (g_mod (s1 ! 0)) (p_pressureAngleDeg (g_parameters (s1 ! 0)))"
    using m1 d1 validGearInput_10_3_20 by simp
  from addGear_fields [OF a b, of 1] obtain s2 where
    2: "addGear s1 0 10 1 = Some (Inr (s2, length s1))"
    and l2: "length s2 = Suc (length s1)"
    and p2: "g_pinion (s2 ! length s1) = Some 0"
    by blast
  from addGear_phase_lock [where s = s1 and this = 0 and teeth = 10 and ang = 1] a b 2
  have x: "g_pinion (s2 ! length s1) = Some 0 \<and>
           g_ratio (s2 ! length s1) = g_teeth (s1 ! 0) / 10 \<and>
           rotation s2 0 = rotation s1 0 \<and>
           rotation s2 (length s1) = pi + 1 + (1 - rotation s1 0) * g_ratio (s2 ! length s1)"
    by auto
  from addGear_phase_lock [where s = s2 and child = 1 and p = 0] l1 l2 p2
  have y: "rotation (rotateGear s2 1) 1
        = rotation s2 1 + (pi + g_angle (s2 ! 1)) + (g_angle (s2 ! 1) - rotation s2 0) * g_ratio (s2 ! 1)"
    by simp
  from x y a b l1 l2 show ?thesis
    by (simp add: 1 2)
qed

text \<open>
  Claim C6. A child attached with angle 0 is placed on the pinion's horizontal, at the
  distance \<open>module \<sqdot> (teeth_self + teeth_pinion) / 2\<close> from the pinion's centre. For the root
  \<^verbatim>\<open>Gear(20, 3, 20)\<close>, which sits at \<open>(0, 0)\<close>, \<^verbatim>\<open>addGear(10, 0)\<close> returns a child with \<open>x = 45\<close>,
  \<open>y = 0\<close>, \<open>ratio = 2\<close> and \<open>rotationSpeed = -2\<close>.
\<close>

theorem addGear_position:
  "(this < length s \<and>
    validGearInput teeth (g_mod (s ! this)) (p_pressureAngleDeg (g_parameters (s ! this))) \<longrightarrow>
      (\<exists>s' child. addGear s this teeth 0 = Some (Inr (s', child)) \<and>
         g_x (s' ! child) = g_x (s ! this) + g_mod (s ! this) * (teeth + g_teeth (s ! this)) / 2 \<and>
         g_y (s' ! child) = g_y (s ! this) \<and>
         g_x (s' ! this) = g_x (s ! this) \<and> g_y (s' ! this) = g_y (s ! this) \<and>
         g_mod (s' ! child) = g_mod (s ! this) \<and> g_teeth (s' ! child) = teeth \<and>
         g_teeth (s' ! this) = g_teeth (s ! this))) \<and>
   (\<exists>s1 rootGear s2 child.
      Gear_new [] 20 (Some 3) (Some 20) None = Some (Inr (s1, rootGear)) \<and>
      g_x (s1 ! rootGear) = 0 \<and> g_y (s1 ! rootGear) = 0 \<and>
      addGear s1 rootGear 10 0 = Some (Inr (s2, child)) \<and>
      g_x (s2 ! child) = 45 \<and> g_x (s2 ! child) = 3 * (20 + 10) / 2 \<and>
      g_y (s2 ! child) = 0 \<and>
      g_ratio (s2 ! child) = 2 \<and>
      g_rotationSpeed (s2 ! child) = - 2)"
proof (intro conjI impI)
  assume a: "this < length s \<and>
    validGearInput teeth (g_mod (s ! this)) (p_pressureAngleDeg (g_parameters (s ! this)))"
  then have lt: "this < length s"
    and v: "validGearInput teeth (g_mod (s ! this)) (p_pressureAngleDeg (g_parameters (s ! this)))"
    by simp_all
  from addGear_fields [OF lt v, of 0] obtain s' where
    r: "addGear s this teeth 0 = Some (Inr (s', length s))"
    and px: "g_x (s' ! length s) = g_x (s ! this)
           + (g_mod (s ! this) * teeth + g_mod (s ! this) * g_teeth (s ! this)) / 2 * cos 0"
    and py: "g_y (s' ! length s) = g_y (s ! this)
           + (g_mod (s ! this) * teeth + g_mod (s ! this) * g_teeth (s ! this)) / 2 * sin 0"
    and m: "g_mod (s' ! length s) = g_mod (s ! this)"
    and t: "g_teeth (s' ! length s) = teeth"
    and this': "s' ! this = (s ! this)\<lparr>g_childGears := insert (length s) (g_childGears (s ! this))\<rparr>"
    by blast
  have "g_x (s' ! length s) = g_x (s ! this) + g_mod (s ! this) * (teeth + g_teeth (s ! this)) / 2"
    using px by (simp add: algebra_simps)
  moreover have "g_y (s' ! length s) = g_y (s ! this)"
    using py by simp
  ultimately show "\<exists>s' child. addGear s this teeth 0 = Some (Inr (s', child)) \<and>
         g_x (s' ! child) = g_x (s ! this) + g_mod (s ! this) * (teeth + g_teeth (s ! this)) / 2 \<and>
         g_y (s' ! child) = g_y (s ! this) \<and>
         g_x (s' ! this) = g_x (s ! this) \<and> g_y (s' ! this) = g_y (s ! this) \<and>
         g_mod (s' ! child) = g_mod (s ! this) \<and> g_teeth (s' ! child) = teeth \<and>
         g_teeth (s' ! this) = g_teeth (s ! this)"
    using r m t this' by simp
next
  have "validGearInput 20 (case Some 3 of None \<Rightarrow> 3 | Some m \<Rightarrow> m)
          (case Some 20 of None \<Rightarrow> 20 | Some d \<Rightarrow> d)"
    and "case None of None \<Rightarrow> True | Some p \<Rightarrow> p < length ([] :: store)"
    using validGearInput_20_3_20 by simp_all
  from Gear_new_fields [OF this]
  have "\<exists>s1. Gear_new [] 20 (Some 3) (Some 20) None = Some (Inr (s1, 0)) \<and> length s1 = 1 \<and>
     g_teeth (s1 ! 0) = 20 \<and> g_mod (s1 ! 0) = 3 \<and>
     p_pressureAngleDeg (g_parameters (s1 ! 0)) = 20 \<and>
     g_x (s1 ! 0) = 0 \<and> g_y (s1 ! 0) = 0 \<and> g_rotationSpeed (s1 ! 0) = 1"
    by simp blast
  then obtain s1 where 1: "Gear_new [] 20 (Some 3) (Some 20) None = Some (Inr (s1, 0))"
    and l1: "length s1 = 1" and t1: "g_teeth (s1 ! 0) = 20" and m1: "g_mod (s1 ! 0) = 3"
    and d1: "p_pressureAngleDeg (g_parameters (s1 ! 0)) = 20"
    and x1: "g_x (s1 ! 0) = 0" and y1: "g_y (s1 ! 0) = 0"
    and v1: "g_rotationSpeed (s1 ! 0) = 1"
    by blast
  have "0 < length s1"
    using l1 by simp
  from child_gear [OF this m1 d1 validGearInput_10_3_20, of 0]
  obtain s2 where 2: "addGear s1 0 10 0 = Some (Inr (s2, 1))"
    and "g_x (s2 ! 1) = 45" and "g_y (s2 ! 1) = 0"
    and "g_ratio (s2 ! 1) = 2" and "g_rotationSpeed (s2 ! 1) = - 2"
    unfolding l1 t1 v1 x1 y1 by auto
  with 1 x1 y1 show "\<exists>s1 rootGear s2 child.
      Gear_new [] 20 (Some 3) (Some 20) None = Some (Inr (s1, rootGear)) \<and>
      g_x (s1 ! rootGear) = 0 \<and> g_y (s1 ! rootGear) = 0 \<and>
      addGear s1 rootGear 10 0 = Some (Inr (s2, child)) \<and>
      g_x (s2 ! child) = 45 \<and> g_x (s2 ! child) = 3 * (20 + 10) / 2 \<and>
      g_y (s2 ! child) = 0 \<and>
      g_ratio (s2 ! child) = 2 \<and>
      g_rotationSpeed (s2 ! child) = - 2"
    by simp
qed

theorem addGear_position_witness:
  "(case Gear_new [] 20 (Some 3) (Some 20) None of
      Some (Inr (s1, rootGear)) \<Rightarrow>
        rootGear < length s1 \<and>
        validGearInput 10 (g_mod (s1 ! rootGear)) (p_pressureAngleDeg (g_parameters (s1 ! rootGear))) \<and>
        (\<exists>s' child. addGear s1 rootGear 10 0 = Some (Inr (s', child)) \<and>
           g_x (s' ! child) = g_x (s1 ! rootGear) + g_mod (s1 ! rootGear) * (10 + g_teeth (s1 ! rootGear)) / 2 \<and>
           g_y (s' ! child) = g_y (s1 ! rootGear))
    | _ \<Rightarrow> False)"
proof -
  have "validGearInput 20 (case Some 3 of None \<Rightarrow> 3 | Some m \<Rightarrow> m)
          (case Some 20 of None \<Rightarrow> 20 | Some d \<Rightarrow> d)"
    and "case None of None \<Rightarrow> True | Some p \<Rightarrow> p < length ([] :: store)"
    using validGearInput_20_3_20 by simp_all
  from Gear_new_fields [OF this]
  have "\<exists>s1. Gear_new [] 20 (Some 3) (Some 20) None = Some (Inr (s1, 0)) \<and> length s1 = 1 \<and>
     g_mod (s1 ! 0) = 3 \<and> p_pressureAngleDeg (g_parameters (s1 ! 0)) = 20"
    by simp blast
  then obtain s1 where 1: "Gear_new [] 20 (Some 3) (Some 20) None = Some (Inr (s1, 0))"
    and l1: "length s1 = 1" and m1: "g_mod (s1 ! 0) = 3"
    and d1: "p_pressureAngleDeg (g_parameters (s1 ! 0)) = 20"
    by blast
  have a: "0 < length s1"
    using l1 by simp
  have b: "validGearInput 10 (g_mod (s1 ! 0)) (p_pressureAngleDeg (g_parameters (s1 ! 0)))"
    using m1 d1 validGearInput_10_3_20 by simp
  from addGear_position [of 0 s1 10] a b
  have "\<exists>s' child. addGear s1 0 10 0 = Some (Inr (s', child)) \<and>
           g_x (s' ! child) = g_x (s1 ! 0) + g_mod (s1 ! 0) * (10 + g_teeth (s1 ! 0)) / 2 \<and>
           g_y (s' ! child) = g_y (s1 ! 0)"
    by blast
  with a b show ?thesis
    unfolding 1 by simp
qed

lemma driveBy_eq:
  "driveBy s g ang = s[g := (s ! g)\<lparr>g_mesh := (g_mesh (s ! g))\<lparr>rotation_z :=
      rotation_z (g_mesh (s ! g)) + ang * g_rotationSpeed (s ! g)\<rparr>\<rparr>]"
  by (simp add: driveBy_def set_rotation_def rotation_def)

text \<open>
  Claim C9. \<^verbatim>\<open>driveBy(angle)\<close> on a gear adds \<open>angle \<sqdot> rotationSpeed\<close> to the rotation of that gear
  and changes nothing else: every other gear of the store is as it was, and so is every
  other field of the gear (putting the old rotation back gives the old gear).
\<close>

theorem driveBy_frame:
  assumes "g < length s"
  shows "rotation (driveBy s g ang) g = rotation s g + ang * g_rotationSpeed (s ! g) \<and>
         length (driveBy s g ang) = length s \<and>
         (\<forall>h. h \<noteq> g \<longrightarrow> driveBy s g ang ! h = s ! h) \<and>
         g_x (driveBy s g ang ! g) = g_x (s ! g) \<and>
         g_y (driveBy s g ang ! g) = g_y (s ! g) \<and>
         position_x (g_mesh (driveBy s g ang ! g)) = position_x (g_mesh (s ! g)) \<and>
         position_y (g_mesh (driveBy s g ang ! g)) = position_y (g_mesh (s ! g)) \<and>
         g_angle (driveBy s g ang ! g) = g_angle (s ! g) \<and>
         g_ratio (driveBy s g ang ! g) = g_ratio (s ! g) \<and>
         g_rotationSpeed (driveBy s g ang ! g) = g_rotationSpeed (s ! g) \<and>
         g_childGears (driveBy s g ang ! g) = g_childGears (s ! g) \<and>
         g_pinion (driveBy s g ang ! g) = g_pinion (s ! g) \<and>
         (driveBy s g ang ! g)\<lparr>g_mesh := (g_mesh (driveBy s g ang ! g))\<lparr>rotation_z := rotation s g\<rparr>\<rparr>
           = s ! g"
  using assms by (simp add: driveBy_eq rotation_def)

theorem driveBy_frame_witness:
  "(case Gear_new [] 20 None None None of
      Some (Inr (s1, rootGear)) \<Rightarrow>
        (case addGear s1 rootGear 10 0 of
           Some (Inr (s2, child)) \<Rightarrow>
             rootGear < length s2 \<and> child \<noteq> rootGear \<and>
             rotation (driveBy s2 rootGear 2) rootGear
               = rotation s2 rootGear + 2 * g_rotationSpeed (s2 ! rootGear) \<and>
             driveBy s2 rootGear 2 ! child = s2 ! child \<and>
             g_x (driveBy s2 rootGear 2 ! rootGear) = g_x (s2 ! rootGear)
         | _ \<Rightarrow> False)
    | _ \<Rightarrow> False)"
proof -
  from ratio_chain [of 0 0] obtain s1 s2 where
    1: "Gear_new [] 20 None None None = Some (Inr (s1, 0))"
    and 2: "addGear s1 0 10 0 = Some (Inr (s2, 1))"
    by blast
  from root_gear 1 have l1: "length s1 = 1" and m1: "g_mod (s1 ! 0) = 3"
    and d1: "p_pressureAngleDeg (g_parameters (s1 ! 0)) = 20"
    by auto
  have "0 < length s1"
    using l1 by simp
  from child_gear [OF this m1 d1 validGearInput_10_3_20, of 0] 2 l1
  have "length s2 = 2"
    by auto
  then have "0 < length s2"
    by simp
  from driveBy_frame [OF this, of 2] \<open>0 < length s2\<close> show ?thesis
    by (simp add: 1 2)
qed

subsection \<open>The gear tree\<close>

lemma map_pinion_update:
  "g_pinion y = g_pinion (xs ! i) \<Longrightarrow> map g_pinion (xs[i := y]) = map g_pinion xs"
proof (cases "i < length xs")
  case True
  then show "g_pinion y = g_pinion (xs ! i) \<Longrightarrow> ?thesis"
    by (simp add: map_update list_update_same_conv)
next
  case False
  then show ?thesis
    by (simp add: list_update_beyond)
qed

lemma set_rotation_pinions: "map g_pinion (set_rotation s this r) = map g_pinion s"
  by (simp add: set_rotation_def map_pinion_update)

lemma setPosition_pinions: "map g_pinion (setPosition s this px py) = map g_pinion s"
  by (simp add: setPosition_def map_pinion_update)

lemma driveBy_pinions: "map g_pinion (driveBy s this ang) = map g_pinion s"
  by (simp add: driveBy_def set_rotation_pinions)

lemma calculateRatio_pinions: "map g_pinion (calculateRatio s this) = map g_pinion s"
proof (cases "this < length s")
  case True
  then show ?thesis
    by (cases "g_pinion (s ! this)") (simp_all add: calculateRatio_def Let_def map_pinion_update)
next
  case False
  then show ?thesis
    by (cases "g_pinion (s ! this)") (simp_all add: calculateRatio_def Let_def list_update_beyond)
qed

lemma positionGear_pinions: "map g_pinion (positionGear s this) = map g_pinion s"
  by (cases "g_pinion (s ! this)") (simp_all add: positionGear_def Let_def setPosition_pinions)

lemma rotateGear_pinions: "map g_pinion (rotateGear s this) = map g_pinion s"
  by (cases "g_pinion (s ! this)") (simp_all add: rotateGear_def Let_def set_rotation_pinions)

lemma Gear_new_pinions:
  assumes "Gear_new s teeth mod_arg deg_arg pinion = Some (Inr (s', g))"
  shows "map g_pinion s' = map g_pinion s @ [pinion]" and "g = length s"
  using assms
  by (auto simp: Gear_new_def Let_def calculateRatio_pinions split: option.splits sum.splits)

lemma addGear_pinions:
  assumes "addGear s this teeth ang = Some (Inr (s', g))"
  shows "map g_pinion s' = map g_pinion s @ [Some this]" and "g = length s"
proof -
  from assms obtain s1 where
    new: "Gear_new s teeth (Some (g_mod (s ! this)))
             (Some (p_pressureAngleDeg (g_parameters (s ! this)))) (Some this) = Some (Inr (s1, g))"
    and s': "s' = rotateGear (positionGear
        ((s1[this := (s1 ! this)\<lparr>g_childGears := insert g (g_childGears (s1 ! this))\<rparr>])
           [g := ((s1[this := (s1 ! this)\<lparr>g_childGears := insert g (g_childGears (s1 ! this))\<rparr>]) ! g)
                   \<lparr>g_angle := ang\<rparr>]) g) g"
    by (auto simp: addGear_def Let_def split: option.splits sum.splits)
  from Gear_new_pinions [OF new] show "g = length s"
    by simp
  have "map g_pinion s' = map g_pinion s1"
    unfolding s' by (simp add: rotateGear_pinions positionGear_pinions map_pinion_update)
  with Gear_new_pinions(1) [OF new] show "map g_pinion s' = map g_pinion s @ [Some this]"
    by simp
qed

lemma pinion_older_iff:
  "pinion_older s \<longleftrightarrow> (\<forall>g<length s. \<forall>p. map g_pinion s ! g = Some p \<longrightarrow> p < g)"
  by (auto simp: pinion_older_def list_all_iff split: option.splits)

lemma pinion_older_append:
  assumes "pinion_older s" and "map g_pinion s' = map g_pinion s @ [pinion]"
    and "case pinion of None \<Rightarrow> True | Some p \<Rightarrow> p < length s"
  shows "pinion_older s'"
proof -
  have len: "length s' = Suc (length s)"
    using assms(2) by (metis length_append_singleton length_map)
  show ?thesis
    unfolding pinion_older_iff
  proof (intro allI impI)
    fix g p assume g: "g < length s'" and p: "map g_pinion s' ! g = Some p"
    show "p < g"
    proof (cases "g < length s")
      case True
      with p assms(2) have "map g_pinion s ! g = Some p"
        by (simp add: nth_append)
      with assms(1) True show ?thesis
        unfolding pinion_older_iff by blast
    next
      case False
      with g len have "g = length s" by simp
      with p assms(2) have "pinion = Some p"
        by (simp add: nth_append)
      with assms(3) \<open>g = length s\<close> show ?thesis by simp
    qed
  qed
qed

lemma pinion_older_same:
  "pinion_older s \<Longrightarrow> map g_pinion s' = map g_pinion s \<Longrightarrow> pinion_older s'"
  unfolding pinion_older_iff by (metis length_map)

lemma built_pinion_older: "built s \<Longrightarrow> pinion_older s"
proof (induction rule: built.induct)
  case built_empty
  show ?case by (simp add: pinion_older_def)
next
  case (built_new s pinion teeth mod_arg deg_arg s' g)
  show ?case
    by (rule pinion_older_append [OF built_new.IH Gear_new_pinions(1) [OF built_new.hyps(3)]
          built_new.hyps(2)])
next
  case (built_addGear s this teeth ang s' g)
  show ?case
    by (rule pinion_older_append [OF built_addGear.IH addGear_pinions(1) [OF built_addGear.hyps(3)]])
       (simp add: built_addGear.hyps(2))
next
  case (built_driveBy s this ang)
  then show ?case by (auto intro: pinion_older_same simp: driveBy_pinions)
next
  case (built_setPosition s this px py)
  then show ?case by (auto intro: pinion_older_same simp: setPosition_pinions)
next
  case (built_calculateRatio s this)
  then show ?case by (auto intro: pinion_older_same simp: calculateRatio_pinions)
next
  case (built_positionGear s this)
  then show ?case by (auto intro: pinion_older_same simp: positionGear_pinions)
next
  case (built_rotateGear s this)
  then show ?case by (auto intro: pinion_older_same simp: rotateGear_pinions)
qed

lemma pinion_older_acyclic:
  assumes "pinion_older s"
  shows "acyclic (pinion_rel s)"
proof -
  have "pinion_rel s \<subseteq> {(g, p). p < g}"
    using assms unfolding pinion_older_iff pinion_rel_def by auto
  moreover have "{(g, p :: nat). p < g} = (less_than)\<inverse>"
    by auto
  moreover have "acyclic ((less_than)\<inverse>)"
    by (simp add: acyclic_converse wf_acyclic)
  ultimately show ?thesis
    by (metis acyclic_subset)
qed

lemma single_valued_pinion_rel: "single_valued (pinion_rel s)"
  by (auto simp: single_valued_def pinion_rel_def)

lemma validGearInput_10_5_20: "validGearInput 10 5 20"
  by (simp add: validGearInput_def degToRad_def)

lemma root_gear_explicit:
  "\<exists>s1. Gear_new [] 20 (Some 3) (Some 20) None = Some (Inr (s1, 0)) \<and> length s1 = 1 \<and>
     g_teeth (s1 ! 0) = 20 \<and> g_mod (s1 ! 0) = 3 \<and>
     p_pressureAngleDeg (g_parameters (s1 ! 0)) = 20 \<and>
     g_x (s1 ! 0) = 0 \<and> g_y (s1 ! 0) = 0"
proof -
  have "validGearInput 20 (case Some 3 of None \<Rightarrow> 3 | Some m \<Rightarrow> m)
          (case Some 20 of None \<Rightarrow> 20 | Some d \<Rightarrow> d)"
    and "case None of None \<Rightarrow> True | Some p \<Rightarrow> p < length ([] :: store)"
    using validGearInput_20_3_20 by simp_all
  from Gear_new_fields [OF this] show ?thesis
    by simp blast
qed

text \<open>
  Claim C3, as the code has it. The code has no module check and no error for it.
  \<^verbatim>\<open>addGear\<close> constructs the child with the module of the gear it is called on, so a child
  attached by \<^verbatim>\<open>addGear\<close> has its pinion's module. The constructor, given a pinion and any valid
  module, returns the new gear without raising, and leaves every gear that existed as it was.
\<close>

theorem addGear_same_module:
  "(this < length s \<and>
    validGearInput teeth (g_mod (s ! this)) (p_pressureAngleDeg (g_parameters (s ! this))) \<longrightarrow>
      (\<exists>s' child. addGear s this teeth ang = Some (Inr (s', child)) \<and>
         g_pinion (s' ! child) = Some this \<and>
         g_mod (s' ! child) = g_mod (s' ! this))) \<and>
   (p < length s \<and> validGearInput teeth m d \<longrightarrow>
      (\<exists>s' g. Gear_new s teeth (Some m) (Some d) (Some p) = Some (Inr (s', g)) \<and>
         g_pinion (s' ! g) = Some p \<and> g_mod (s' ! g) = m \<and>
         length s' = Suc (length s) \<and> (\<forall>h<length s. s' ! h = s ! h)))"
proof (intro conjI impI)
  assume "this < length s \<and>
    validGearInput teeth (g_mod (s ! this)) (p_pressureAngleDeg (g_parameters (s ! this)))"
  then have lt: "this < length s"
    and v: "validGearInput teeth (g_mod (s ! this)) (p_pressureAngleDeg (g_parameters (s ! this)))"
    by simp_all
  from addGear_fields [OF lt v, of ang] obtain s' where
    "addGear s this teeth ang = Some (Inr (s', length s))"
    "g_pinion (s' ! length s) = Some this"
    "g_mod (s' ! length s) = g_mod (s ! this)"
    "s' ! this = (s ! this)\<lparr>g_childGears := insert (length s) (g_childGears (s ! this))\<rparr>"
    by blast
  then show "\<exists>s' child. addGear s this teeth ang = Some (Inr (s', child)) \<and>
         g_pinion (s' ! child) = Some this \<and> g_mod (s' ! child) = g_mod (s' ! this)"
    by simp
next
  assume "p < length s \<and> validGearInput teeth m d"
  then have "validGearInput teeth (case Some m of None \<Rightarrow> 3 | Some m \<Rightarrow> m)
          (case Some d of None \<Rightarrow> 20 | Some d \<Rightarrow> d)"
    and "case Some p of None \<Rightarrow> True | Some p \<Rightarrow> p < length s"
    by simp_all
  from Gear_new_fields [OF this]
  show "\<exists>s' g. Gear_new s teeth (Some m) (Some d) (Some p) = Some (Inr (s', g)) \<and>
         g_pinion (s' ! g) = Some p \<and> g_mod (s' ! g) = m \<and>
         length s' = Suc (length s) \<and> (\<forall>h<length s. s' ! h = s ! h)"
    by simp blast
qed

theorem addGear_same_module_witness:
  "(case Gear_new [] 20 (Some 3) (Some 20) None of
      Some (Inr (s1, rootGear)) \<Rightarrow>
        rootGear < length s1 \<and>
        validGearInput 10 (g_mod (s1 ! rootGear)) (p_pressureAngleDeg (g_parameters (s1 ! rootGear))) \<and>
        (\<exists>s' child. addGear s1 rootGear 10 0 = Some (Inr (s', child)) \<and>
           g_pinion (s' ! child) = Some rootGear \<and>
           g_mod (s' ! child) = g_mod (s' ! rootGear)) \<and>
        validGearInput 10 5 20 \<and>
        (\<exists>s' g. Gear_new s1 10 (Some 5) (Some 20) (Some rootGear) = Some (Inr (s', g)) \<and>
           g_pinion (s' ! g) = Some rootGear \<and> g_mod (s' ! g) = 5 \<and>
           length s' = Suc (length s1) \<and> s' ! rootGear = s1 ! rootGear)
    | _ \<Rightarrow> False)"
proof -
  from root_gear_explicit obtain s1 where
    1: "Gear_new [] 20 (Some 3) (Some 20) None = Some (Inr (s1, 0))"
    and l1: "length s1 = 1" and m1: "g_mod (s1 ! 0) = 3"
    and d1: "p_pressureAngleDeg (g_parameters (s1 ! 0)) = 20"
    by blast
  have a: "0 < length s1"
    using l1 by simp
  have b: "validGearInput 10 (g_mod (s1 ! 0)) (p_pressureAngleDeg (g_parameters (s1 ! 0)))"
    using m1 d1 validGearInput_10_3_20 by simp
  from addGear_same_module [where this = 0 and s = s1 and teeth = 10 and ang = 0
      and p = 0 and m = 5 and d = 20] a b validGearInput_10_5_20
  have "\<exists>s' child. addGear s1 0 10 0 = Some (Inr (s', child)) \<and>
           g_pinion (s' ! child) = Some 0 \<and> g_mod (s' ! child) = g_mod (s' ! 0)"
    and "\<exists>s' g. Gear_new s1 10 (Some 5) (Some 20) (Some 0) = Some (Inr (s', g)) \<and>
           g_pinion (s' ! g) = Some 0 \<and> g_mod (s' ! g) = 5 \<and>
           length s' = Suc (length s1) \<and> s' ! 0 = s1 ! 0"
    by blast+
  with a b validGearInput_10_5_20 show ?thesis
    by (simp add: 1)
qed

text \<open>
  Claim C3 as stated fails: a gear of module 5 constructed with a pinion of module 3 is
  returned, no error is raised, and \<^verbatim>\<open>positionGear\<close> then computes its centre distance from its
  own module alone (\<open>(5 \<sqdot> 10 + 5 \<sqdot> 20) / 2 = 75\<close>).
\<close>

theorem Gear_new_module_mismatch_accepted:
  "(case Gear_new [] 20 (Some 3) (Some 20) None of
      Some (Inr (s1, rootGear)) \<Rightarrow>
        (case Gear_new s1 10 (Some 5) (Some 20) (Some rootGear) of
           Some (Inr (s2, child)) \<Rightarrow>
             g_pinion (s2 ! child) = Some rootGear \<and>
             g_mod (s2 ! child) = 5 \<and> g_mod (s2 ! rootGear) = 3 \<and>
             g_x (positionGear s2 child ! child) = 75
         | _ \<Rightarrow> False)
    | _ \<Rightarrow> False)"
proof -
  define G0 where "G0 = \<lparr>g_teeth = 20, g_mod = 3, g_parameters = generateGearParams 20 3 20,
        g_mesh = \<lparr>mesh_geometry = geometry_of (generateGearParams 20 3 20),
                  rotation_z = 0, position_x = 0, position_y = 0\<rparr>,
        g_angle = 0, g_x = 0, g_y = 0, g_childGears = {}, g_pinion = None,
        g_ratio = 1, g_rotationSpeed = 1\<rparr>"
  define G1 where "G1 = \<lparr>g_teeth = 10, g_mod = 5, g_parameters = generateGearParams 10 5 20,
        g_mesh = \<lparr>mesh_geometry = geometry_of (generateGearParams 10 5 20),
                  rotation_z = 0, position_x = 0, position_y = 0\<rparr>,
        g_angle = 0, g_x = 0, g_y = 0, g_childGears = {}, g_pinion = Some 0,
        g_ratio = 20 / 10, g_rotationSpeed = -1 * 1 * (20 / 10)\<rparr>"
  have 1: "Gear_new [] 20 (Some 3) (Some 20) None = Some (Inr ([G0], 0))"
    using Gear_new_returns [where s = "[]" and teeth = 20 and mod_arg = "Some 3"
        and deg_arg = "Some 20" and pinion = None] validGearInput_20_3_20
    by (simp add: G0_def)
  have 2: "Gear_new [G0] 10 (Some 5) (Some 20) (Some 0) = Some (Inr ([G0, G1], 1))"
    using Gear_new_returns [where s = "[G0]" and teeth = 10 and mod_arg = "Some 5"
        and deg_arg = "Some 20" and pinion = "Some 0"] validGearInput_10_5_20
    by (simp add: G0_def G1_def)
  have 3: "g_x (positionGear [G0, G1] 1 ! 1) = 75"
    using positionGear_last [where xs = "[G0]" and g = G1 and p = 0]
    by (simp add: G0_def G1_def)
  show ?thesis
    using 3 by (simp add: 1 2) (simp add: G0_def G1_def)
qed

text \<open>
  No operation of the source attaches a gear that exists already: the constructor and
  \<^verbatim>\<open>addGear\<close>, on any input on which they return, return a gear that was not in the store, and
  the pinion of no other gear changes. There is therefore no call on which a gear could be
  attached to itself, to one of its descendants, or a second time.
\<close>

lemma Gear_new_attaches_new_gear:
  assumes "Gear_new s teeth mod_arg deg_arg pinion = Some (Inr (s', g))"
  shows "g = length s \<and> length s' = Suc (length s) \<and> g_pinion (s' ! g) = pinion \<and>
         (\<forall>h<length s. g_pinion (s' ! h) = g_pinion (s ! h))"
proof -
  from Gear_new_pinions [OF assms] have m: "map g_pinion s' = map g_pinion s @ [pinion]"
    and g: "g = length s"
    by simp_all
  from m have len: "length s' = Suc (length s)"
    by (metis length_append_singleton length_map)
  have "\<forall>h<length s'. g_pinion (s' ! h) = (map g_pinion s @ [pinion]) ! h"
    using m by (metis nth_map)
  with len g show ?thesis
    by (simp add: nth_append)
qed

lemma addGear_attaches_new_gear:
  assumes "addGear s this teeth ang = Some (Inr (s', g))"
  shows "g = length s \<and> length s' = Suc (length s) \<and> g_pinion (s' ! g) = Some this \<and>
         (\<forall>h<length s. g_pinion (s' ! h) = g_pinion (s ! h))"
proof -
  from addGear_pinions [OF assms] have m: "map g_pinion s' = map g_pinion s @ [Some this]"
    and g: "g = length s"
    by simp_all
  from m have len: "length s' = Suc (length s)"
    by (metis length_append_singleton length_map)
  have "\<forall>h<length s'. g_pinion (s' ! h) = (map g_pinion s @ [Some this]) ! h"
    using m by (metis nth_map)
  with len g show ?thesis
    by (simp add: nth_append)
qed

text \<open>
  What the code does guarantee: on a valid input \<^verbatim>\<open>addGear\<close> returns a new gear with the gear it
  was called on as its pinion and adds it to that gear's children, and in every store built
  by the constructor and the methods of \<^verbatim>\<open>Gear\<close> a gear has at most one pinion and the pinion
  relation has no cycle.
\<close>

lemma addGear_tree:
  "(built s \<and> this < length s \<and>
    validGearInput teeth (g_mod (s ! this)) (p_pressureAngleDeg (g_parameters (s ! this))) \<longrightarrow>
      (\<exists>s' child. addGear s this teeth ang = Some (Inr (s', child)) \<and>
         child = length s \<and> child \<noteq> this \<and> length s' = Suc (length s) \<and>
         g_pinion (s' ! child) = Some this \<and>
         g_childGears (s' ! this) = insert child (g_childGears (s ! this)) \<and>
         (\<forall>g<length s. g_pinion (s' ! g) = g_pinion (s ! g)) \<and>
         built s')) \<and>
   (built s \<longrightarrow> single_valued (pinion_rel s) \<and> acyclic (pinion_rel s))"
proof (intro conjI impI)
  assume a: "built s \<and> this < length s \<and>
    validGearInput teeth (g_mod (s ! this)) (p_pressureAngleDeg (g_parameters (s ! this)))"
  then have b: "built s" and lt: "this < length s"
    and v: "validGearInput teeth (g_mod (s ! this)) (p_pressureAngleDeg (g_parameters (s ! this)))"
    by simp_all
  from addGear_fields [OF lt v, of ang] obtain s' where
    r: "addGear s this teeth ang = Some (Inr (s', length s))"
    and len: "length s' = Suc (length s)"
    and pin: "g_pinion (s' ! length s) = Some this"
    and this': "s' ! this = (s ! this)\<lparr>g_childGears := insert (length s) (g_childGears (s ! this))\<rparr>"
    by blast
  have old: "\<forall>g<length s. g_pinion (s' ! g) = g_pinion (s ! g)"
  proof (intro allI impI)
    fix g assume g: "g < length s"
    have "map g_pinion s' ! g = (map g_pinion s @ [Some this]) ! g"
      using addGear_pinions(1) [OF r] by simp
    then show "g_pinion (s' ! g) = g_pinion (s ! g)"
      using g len by (simp add: nth_append)
  qed
  have "built s'"
    using b lt r by (rule built_addGear)
  with r len pin this' old lt
  show "\<exists>s' child. addGear s this teeth ang = Some (Inr (s', child)) \<and>
         child = length s \<and> child \<noteq> this \<and> length s' = Suc (length s) \<and>
         g_pinion (s' ! child) = Some this \<and>
         g_childGears (s' ! this) = insert child (g_childGears (s ! this)) \<and>
         (\<forall>g<length s. g_pinion (s' ! g) = g_pinion (s ! g)) \<and>
         built s'"
    by simp
next
  assume "built s"
  then show "single_valued (pinion_rel s)"
    by (simp add: single_valued_pinion_rel)
next
  assume "built s"
  then show "acyclic (pinion_rel s)"
    by (intro pinion_older_acyclic built_pinion_older)
qed

end
